theory Spec2Isabelle
  imports Main
begin

section \<open>Python values and string operations used by the agents\<close>

text \<open>
  The agents are Python classes. Strings are modelled as \<^typ>\<open>string\<close> (ASCII text),
  dictionaries with string keys as maps, exceptions as values of \<open>exn\<close> (the exception
  class with its message), and every method that mutates its object returns the new
  object beside its result.
\<close>

datatype exn =
    KeyError string
  | TypeError string
  | AttributeError string
  | IndexError string
  | UnboundLocalError string
  | OtherException string

fun exn_message :: "exn \<Rightarrow> string" where
  "exn_message (KeyError m) = m"
| "exn_message (TypeError m) = m"
| "exn_message (AttributeError m) = m"
| "exn_message (IndexError m) = m"
| "exn_message (UnboundLocalError m) = m"
| "exn_message (OtherException m) = m"

text \<open>
  The Python values that travel between the agents: the entries of the info
  dictionaries and the actions. A float is carried as its \<open>repr\<close> (\<open>PFloat ''0.0''\<close>),
  a dictionary with string keys as the list of its items in insertion order.
\<close>

datatype pyval =
    PNone
  | PBool bool
  | PInt int
  | PFloat string
  | PStr string
  | PList "pyval list"
  | PDict "(string \<times> pyval) list"

type_synonym info_dict = "string \<rightharpoonup> pyval"

text \<open>Truthiness, as \<open>if x:\<close> and \<open>x and y\<close> test it.\<close>

fun truthy :: "pyval \<Rightarrow> bool" where
  "truthy PNone = False"
| "truthy (PBool b) = b"
| "truthy (PInt i) = (i \<noteq> 0)"
| "truthy (PFloat r) = (r \<noteq> ''0.0'' \<and> r \<noteq> ''-0.0'')"
| "truthy (PStr s) = (s \<noteq> [])"
| "truthy (PList xs) = (xs \<noteq> [])"
| "truthy (PDict kvs) = (kvs \<noteq> [])"

text \<open>\<open>p in s\<close> on strings: \<open>p\<close> occurs in \<open>s\<close> as a contiguous substring.\<close>

definition starts_with :: "string \<Rightarrow> string \<Rightarrow> bool" where
  "starts_with p s = (take (length p) s = p)"

fun contains :: "string \<Rightarrow> string \<Rightarrow> bool" where
  "contains p [] = (p = [])"
| "contains p (c # cs) = (starts_with p (c # cs) \<or> contains p cs)"

text \<open>\<open>s.find(p)\<close>: the first index where \<open>p\<close> occurs, \<open>None\<close> for Python's \<open>-1\<close>.\<close>

fun find_sub :: "string \<Rightarrow> string \<Rightarrow> nat option" where
  "find_sub p [] = (if p = [] then Some 0 else None)"
| "find_sub p (c # cs) =
     (if starts_with p (c # cs) then Some 0 else map_option Suc (find_sub p cs))"

text \<open>The last index where \<open>p\<close> occurs (\<open>s.rfind(p)\<close>).\<close>

fun rfind_sub :: "string \<Rightarrow> string \<Rightarrow> nat option" where
  "rfind_sub p [] = (if p = [] then Some 0 else None)"
| "rfind_sub p (c # cs) =
     (case rfind_sub p cs of
        Some i \<Rightarrow> Some (Suc i)
      | None \<Rightarrow> if starts_with p (c # cs) then Some 0 else None)"

text \<open>\<open>str.upper()\<close> on ASCII text.\<close>

definition upper_char :: "char \<Rightarrow> char" where
  "upper_char c =
     (let n = (of_char c :: nat)
      in if 97 \<le> n \<and> n \<le> 122 then char_of (n - 32) else c)"

definition upper :: "string \<Rightarrow> string" where
  "upper s = map upper_char s"

text \<open>\<open>str.strip()\<close>: the characters for which \<open>str.isspace()\<close> holds in ASCII are
  tab, line feed, vertical tab, form feed, carriage return, the four separators
  \<open>0x1c..0x1f\<close> and the space.\<close>

definition is_space :: "char \<Rightarrow> bool" where
  "is_space c =
     (let n = (of_char c :: nat)
      in (9 \<le> n \<and> n \<le> 13) \<or> (28 \<le> n \<and> n \<le> 32))"

definition strip :: "string \<Rightarrow> string" where
  "strip s = rev (dropWhile is_space (rev (dropWhile is_space s)))"

text \<open>\<open>str(n)\<close> for an integer: decimal digits, with a minus sign when negative.\<close>

definition digit_char :: "nat \<Rightarrow> char" where
  "digit_char d = char_of (48 + d)"

fun str_nat :: "nat \<Rightarrow> string" where
  "str_nat n = (if n < 10 then [digit_char n] else str_nat (n div 10) @ [digit_char (n mod 10)])"

definition str_int :: "int \<Rightarrow> string" where
  "str_int i = (if i < 0 then CHR ''-'' # str_nat (nat (- i)) else str_nat (nat i))"

text \<open>\<open>sep.join(xs)\<close>.\<close>

fun join :: "string \<Rightarrow> string list \<Rightarrow> string" where
  "join sep [] = []"
| "join sep [x] = x"
| "join sep (x # y # ys) = x @ sep @ join sep (y # ys)"

text \<open>
  \<open>repr\<close> of an ASCII string: single quotes unless the string holds a single quote and
  no double quote; the backslash, the chosen quote, tab, line feed and carriage return
  are escaped, the other control characters are written \<open>\\xNN\<close>.
\<close>

definition hex_digit :: "nat \<Rightarrow> char" where
  "hex_digit d = (if d < 10 then char_of (48 + d) else char_of (87 + d))"

definition repr_char :: "char \<Rightarrow> char \<Rightarrow> string" where
  "repr_char q c =
     (let n = (of_char c :: nat)
      in if c = CHR 0x5C then [CHR 0x5C, CHR 0x5C]
         else if c = q then [CHR 0x5C, q]
         else if n = 9 then [CHR 0x5C, CHR ''t'']
         else if n = 10 then [CHR 0x5C, CHR ''n'']
         else if n = 13 then [CHR 0x5C, CHR ''r'']
         else if n < 32 \<or> n = 127
           then [CHR 0x5C, CHR ''x'', hex_digit (n div 16), hex_digit (n mod 16)]
         else [c])"

definition repr_str :: "string \<Rightarrow> string" where
  "repr_str s =
     (let q = (if CHR 0x27 \<in> set s \<and> CHR 0x22 \<notin> set s then CHR 0x22 else CHR 0x27)
      in q # concat (map (repr_char q) s) @ [q])"

text \<open>\<open>repr(x)\<close> and \<open>str(x)\<close>; they differ on strings only.\<close>

fun py_repr :: "pyval \<Rightarrow> string"
  and py_repr_list :: "pyval list \<Rightarrow> string list"
  and py_repr_items :: "(string \<times> pyval) list \<Rightarrow> string list" where
  "py_repr PNone = ''None''"
| "py_repr (PBool b) = (if b then ''True'' else ''False'')"
| "py_repr (PInt i) = str_int i"
| "py_repr (PFloat r) = r"
| "py_repr (PStr s) = repr_str s"
| "py_repr (PList xs) = ''['' @ join '', '' (py_repr_list xs) @ '']''"
| "py_repr (PDict kvs) = ''{'' @ join '', '' (py_repr_items kvs) @ ''}''"
| "py_repr_list [] = []"
| "py_repr_list (x # xs) = py_repr x # py_repr_list xs"
| "py_repr_items [] = []"
| "py_repr_items ((k, v) # kvs) = (repr_str k @ '': '' @ py_repr v) # py_repr_items kvs"

definition py_str :: "pyval \<Rightarrow> string" where
  "py_str x = (case x of PStr s \<Rightarrow> s | _ \<Rightarrow> py_repr x)"

section \<open>The verifier agent (verifier_agent.py)\<close>

text \<open>
  A message turn of a conversation with the oracle, and the agent that holds the
  conversation (class LMMAgent).
\<close>

record message =
  role :: string
  content :: string
  has_image :: bool

record lmm_agent =
  system_prompt :: string
  messages :: "message list"

text \<open>
  Modelled from the spec: class LMMAgent (gui_agents.s2.core.mllm) is not among the
  sources. The spec's oracle interface is "an ordered list of structured message turns
  (role, text, optional image)"; \<open>add_message\<close> appends one turn to that list,
  \<open>add_system_prompt\<close> puts the system turn first (replacing the one that is there),
  and \<open>remove_message_at\<close> deletes the turn at an index of the list.
\<close>

definition add_message :: "string \<Rightarrow> bool \<Rightarrow> string \<Rightarrow> lmm_agent \<Rightarrow> lmm_agent" where
  "add_message text_content image_content r ag =
     ag\<lparr>messages := messages ag @
          [\<lparr>role = r, content = text_content, has_image = image_content\<rparr>]\<rparr>"

definition add_system_prompt :: "string \<Rightarrow> lmm_agent \<Rightarrow> lmm_agent" where
  "add_system_prompt p ag =
     (let m = \<lparr>role = ''system'', content = p, has_image = False\<rparr>
      in ag\<lparr>system_prompt := p,
            messages := (case messages ag of [] \<Rightarrow> [m] | _ # rest \<Rightarrow> m # rest)\<rparr>)"

definition remove_message_at :: "nat \<Rightarrow> lmm_agent \<Rightarrow> lmm_agent" where
  "remove_message_at i ag =
     (if i < length (messages ag)
      then ag\<lparr>messages := take i (messages ag) @ drop (Suc i) (messages ag)\<rparr>
      else ag)"

definition create_agent :: "string \<Rightarrow> lmm_agent" where
  "create_agent p = add_system_prompt p \<lparr>system_prompt = [], messages = []\<rparr>"

text \<open>One entry of the verifier's history.\<close>

record verification_info =
  vi_manager_goal :: string
  vi_worker_result :: info_dict
  vi_verification_response :: string
  vi_is_success :: bool
  vi_reasoning :: string

record verifier_agent =
  verifier_engine :: lmm_agent
  verification_history :: "verification_info list"

text \<open>\<open>_parse_verification_response\<close>: the verdict and the reasoning read from the
  oracle's reply.\<close>

definition parse_verification_response :: "string \<Rightarrow> bool \<times> string" where
  "parse_verification_response response =
     (let is_success =
            (if contains ''VERIFICATION_RESULT: PASS'' (upper response) then True
             else if contains ''VERIFICATION_RESULT: FAIL'' (upper response) then False
             else True);
          reasoning =
            (case find_sub ''REASONING:'' response of
               Some reasoning_start \<Rightarrow> strip (drop reasoning_start response)
             | None \<Rightarrow> ''No explicit reasoning provided'')
      in (is_success, reasoning))"

text \<open>
  \<open>verify_execution\<close>. The prompt text (\<open>_construct_verification_prompt\<close>, a formatted
  description of its three arguments) and the oracle (\<open>call_llm_safe\<close>, which returns
  the reply to the conversation so far) are parameters; \<open>screenshot\<close> says whether the
  observation carries an image.
\<close>

record 'o verifier_env =
  construct_verification_prompt :: "string \<Rightarrow> info_dict \<Rightarrow> 'o \<Rightarrow> string"
  verifier_llm :: "lmm_agent \<Rightarrow> string"
  verifier_screenshot :: "'o \<Rightarrow> bool"

definition verify_execution ::
  "'o verifier_env \<Rightarrow> string \<Rightarrow> info_dict \<Rightarrow> 'o \<Rightarrow> verifier_agent
     \<Rightarrow> (bool \<times> string \<times> verification_info) \<times> verifier_agent" where
  "verify_execution E manager_goal worker_execution_result current_ui_state v =
     (let verification_prompt =
            construct_verification_prompt E manager_goal worker_execution_result current_ui_state;
          engine = add_message verification_prompt (verifier_screenshot E current_ui_state)
                     ''user'' (verifier_engine v);
          verification_response = verifier_llm E engine;
          (is_success, reasoning) = parse_verification_response verification_response;
          vinfo = \<lparr>vi_manager_goal = manager_goal,
                   vi_worker_result = worker_execution_result,
                   vi_verification_response = verification_response,
                   vi_is_success = is_success,
                   vi_reasoning = reasoning\<rparr>
      in ((is_success, reasoning, vinfo),
          v\<lparr>verifier_engine := engine,
            verification_history := verification_history v @ [vinfo]\<rparr>))"

definition verifier_reset :: "verifier_agent \<Rightarrow> verifier_agent" where
  "verifier_reset v = v\<lparr>verification_history := []\<rparr>"

text \<open>A verifier whose oracle answers in prose, without the result line.\<close>

definition example_verifier_env :: "unit verifier_env" where
  "example_verifier_env =
     \<lparr>construct_verification_prompt = (\<lambda>goal result ob. ''MANAGER GOAL: '' @ goal),
      verifier_llm = (\<lambda>ag. ''I think the worker is in the right app.''),
      verifier_screenshot = (\<lambda>ob. False)\<rparr>"

definition example_verifier :: verifier_agent where
  "example_verifier =
     \<lparr>verifier_engine = create_agent ''You are a helpful assistant.'',
      verification_history = []\<rparr>"

section \<open>The actuator interface (grounding.py)\<close>

text \<open>
  An action descriptor of the environment (android_world's \<open>JSONAction\<close>) with the
  fields the index operations set, and the action kinds they use.
\<close>

record json_action =
  action_type :: string
  index :: "int option"
  text_payload :: "string option"

definition CLICK :: string where "CLICK = ''click''"
definition LONG_PRESS :: string where "LONG_PRESS = ''long_press''"
definition INPUT_TEXT :: string where "INPUT_TEXT = ''input_text''"

text \<open>
  The environment \<open>self.env\<close> is external: \<open>get_state\<close> returns the list of UI
  elements or raises, \<open>execute_action\<close> performs an action on the device (it may raise
  too, and returns the device as it is afterwards).
\<close>

record ('e, 'u) env_ops =
  get_state :: "'e \<Rightarrow> exn + 'u list"
  execute_action :: "json_action \<Rightarrow> 'e \<Rightarrow> exn option \<times> 'e"

text \<open>
  The grounding agent (class AndroidACI): its notes, its environment, and a log of the
  actions it handed to \<open>env.execute_action\<close>.
\<close>

record 'e android_aci =
  aci_notes :: "string list"
  env :: 'e
  executed :: "json_action list"

definition env_execute ::
  "('e, 'u) env_ops \<Rightarrow> json_action \<Rightarrow> 'e android_aci \<Rightarrow> exn option \<times> 'e android_aci" where
  "env_execute ops a aci =
     (case execute_action ops a (env aci) of
        (r, e') \<Rightarrow> (r, aci\<lparr>env := e', executed := executed aci @ [a]\<rparr>))"

definition out_of_range_message :: "int \<Rightarrow> nat \<Rightarrow> string" where
  "out_of_range_message i n =
     ''FAIL: Index '' @ str_int i @ '' out of range (0-'' @ str_int (int n - 1) @ '')''"

definition click_by_index ::
  "('e, 'u) env_ops \<Rightarrow> int \<Rightarrow> 'e android_aci \<Rightarrow> string \<times> 'e android_aci" where
  "click_by_index ops i aci =
     (case get_state ops (env aci) of
        Inl e \<Rightarrow> (''FAIL: Error clicking element at index '' @ str_int i, aci)
      | Inr ui_elements \<Rightarrow>
          if i < 0 \<or> i \<ge> int (length ui_elements)
          then (out_of_range_message i (length ui_elements), aci)
          else (case env_execute ops
                       \<lparr>action_type = CLICK, index = Some i, text_payload = None\<rparr> aci of
                  (Some e, aci') \<Rightarrow> (''FAIL: Error clicking element at index '' @ str_int i, aci')
                | (None, aci') \<Rightarrow> (''SUCCESS: Clicked element at index '' @ str_int i, aci')))"

definition long_click_by_index ::
  "('e, 'u) env_ops \<Rightarrow> int \<Rightarrow> 'e android_aci \<Rightarrow> string \<times> 'e android_aci" where
  "long_click_by_index ops i aci =
     (case get_state ops (env aci) of
        Inl e \<Rightarrow> (''FAIL: Error long clicking element at index '' @ str_int i, aci)
      | Inr ui_elements \<Rightarrow>
          if i < 0 \<or> i \<ge> int (length ui_elements)
          then (out_of_range_message i (length ui_elements), aci)
          else (case env_execute ops
                       \<lparr>action_type = LONG_PRESS, index = Some i, text_payload = None\<rparr> aci of
                  (Some e, aci') \<Rightarrow>
                    (''FAIL: Error long clicking element at index '' @ str_int i, aci')
                | (None, aci') \<Rightarrow>
                    (''SUCCESS: Long clicked element at index '' @ str_int i, aci')))"

definition type_by_index ::
  "('e, 'u) env_ops \<Rightarrow> int \<Rightarrow> string \<Rightarrow> 'e android_aci \<Rightarrow> string \<times> 'e android_aci" where
  "type_by_index ops i txt aci =
     (case get_state ops (env aci) of
        Inl e \<Rightarrow> (''FAIL: Error typing into element at index '' @ str_int i, aci)
      | Inr ui_elements \<Rightarrow>
          if i < 0 \<or> i \<ge> int (length ui_elements)
          then (out_of_range_message i (length ui_elements), aci)
          else (case env_execute ops
                       \<lparr>action_type = INPUT_TEXT, index = Some i, text_payload = Some txt\<rparr> aci of
                  (Some e, aci') \<Rightarrow>
                    (''FAIL: Error typing into element at index '' @ str_int i, aci')
                | (None, aci') \<Rightarrow>
                    (''SUCCESS: Typed '' @ [CHR 0x27] @ txt @ [CHR 0x27] @
                       '' into element at index '' @ str_int i, aci')))"

text \<open>\<open>wait\<close>, \<open>done\<close> and \<open>fail\<close> return fixed strings (\<open>wait\<close> after sleeping).\<close>

definition wait_result :: string where
  "wait_result = ''SUCCESS: Waited 1.0 seconds''"

text \<open>A device with three UI elements that accepts every action.\<close>

definition example_ops :: "(nat, string) env_ops" where
  "example_ops =
     \<lparr>get_state = (\<lambda>e. Inr [''Settings'', ''Wi-Fi'', ''Search'']),
      execute_action = (\<lambda>a e. (None, Suc e))\<rparr>"

definition example_aci :: "nat android_aci" where
  "example_aci = \<lparr>aci_notes = [], env = 0, executed = []\<rparr>"

section \<open>The orchestrator (agent_s.py: AndroidAgentS2)\<close>

text \<open>A subtask (class Node) and the orchestrator's state variables, as \<open>reset\<close> lists them.\<close>

record Node =
  name :: string
  info :: string

record agent_state =
  requires_replan :: bool
  needs_next_subtask :: bool
  step_count :: nat
  turn_count :: nat
  failure_subtask :: "Node option"
  should_send_action :: bool
  completed_tasks :: "Node list"
  current_subtask :: "Node option"
  subtasks :: "Node list"
  search_query :: string
  subtask_status :: string

definition initial_agent_state :: agent_state where
  "initial_agent_state =
     \<lparr>requires_replan = True, needs_next_subtask = True, step_count = 0, turn_count = 0,
      failure_subtask = None, should_send_action = False, completed_tasks = [],
      current_subtask = None, subtasks = [], search_query = [], subtask_status = ''Start''\<rparr>"

text \<open>
  The planner, the executor and the verifier are objects the orchestrator holds
  (\<open>self.planner\<close>, \<open>self.executor\<close>, which the caller may inject, \<open>self.verifier\<close>).
  Their methods are parameters: each takes the arguments \<open>predict\<close> passes, reads and
  changes the state \<open>'w\<close> of everything outside the orchestrator (the three objects,
  the oracle, the device), and returns its result or raises. \<open>'o\<close> is the type of
  observations.
\<close>

record ('w, 'o) collaborators =
  planner_get_action_queue ::
    "string \<Rightarrow> 'o \<Rightarrow> Node option \<Rightarrow> Node list \<Rightarrow> Node list \<Rightarrow> 'w
       \<Rightarrow> (exn + info_dict \<times> Node list) \<times> 'w"
  executor_generate_next_action ::
    "string \<Rightarrow> string \<Rightarrow> string \<Rightarrow> string \<Rightarrow> Node list \<Rightarrow> Node list \<Rightarrow> 'o \<Rightarrow> 'w
       \<Rightarrow> (exn + info_dict \<times> pyval list) \<times> 'w"
  verifier_verify_execution ::
    "string \<Rightarrow> info_dict \<Rightarrow> 'o \<Rightarrow> 'w \<Rightarrow> (exn + bool \<times> string \<times> pyval) \<times> 'w"
  reset_executor :: "'w \<Rightarrow> 'w"
  reset_verifier :: "'w \<Rightarrow> 'w"

text \<open>
  What one call of \<open>predict\<close> did with its collaborators, in order: the replies of the
  planner, the executor and the verifier, the resets, and an exception raised by one of
  them.
\<close>

datatype event =
    Planned "Node list"
  | Executed "pyval list"
  | Verified bool
  | ResetExecutor
  | ResetVerifier
  | Failed exn

text \<open>
  The frame of a running \<open>predict\<close> call: the object (\<open>self\<close>), the outside world, the
  local variables \<open>planner_info\<close>, \<open>executor_info\<close> and \<open>actions\<close>, and the events so far.
\<close>

record 'w frame =
  agent :: agent_state
  world :: 'w
  planner_info :: info_dict
  executor_info :: info_dict
  actions :: "pyval list"
  events :: "event list"

text \<open>
  How a pass through the loop body ends: by an exception, by the \<open>break\<close> of the Advance
  step, or by reaching the end of the body.
\<close>

datatype outcome = Raised exn | Broke | Completed

definition and_then ::
  "outcome \<times> 'w frame \<Rightarrow> ('w frame \<Rightarrow> outcome \<times> 'w frame) \<Rightarrow> outcome \<times> 'w frame" where
  "and_then r k = (case r of (Completed, f) \<Rightarrow> k f | _ \<Rightarrow> r)"

text \<open>\<open>reset_executor_state\<close>: reset the executor and the verifier, clear the step counter.\<close>

definition reset_executor_state :: "('w, 'o) collaborators \<Rightarrow> 'w frame \<Rightarrow> 'w frame" where
  "reset_executor_state c f =
     f\<lparr>world := reset_verifier c (reset_executor c (world f)),
       events := events f @ [ResetExecutor, ResetVerifier],
       agent := (agent f)\<lparr>step_count := 0\<rparr>\<rparr>"

text \<open>
  Replan: \<open>if self.requires_replan\<close>. The planner's \<open>search_query\<close> entry is read as the
  string \<open>self.search_query\<close> is declared to be.
\<close>

definition replan_phase ::
  "('w, 'o) collaborators \<Rightarrow> string \<Rightarrow> 'o \<Rightarrow> 'w frame \<Rightarrow> outcome \<times> 'w frame" where
  "replan_phase c instruction observation f =
     (if requires_replan (agent f) then
        (case planner_get_action_queue c instruction observation
                (failure_subtask (agent f)) (completed_tasks (agent f)) (subtasks (agent f))
                (world f) of
           (Inl e, w) \<Rightarrow> (Raised e, f\<lparr>world := w, events := events f @ [Failed e]\<rparr>)
         | (Inr (pinfo, queue), w) \<Rightarrow>
             (Completed,
              f\<lparr>world := w,
                events := events f @ [Planned queue],
                planner_info := pinfo,
                agent := (agent f)
                  \<lparr>subtasks := queue,
                   requires_replan := False,
                   search_query :=
                     (case pinfo ''search_query'' of Some q \<Rightarrow> py_str q | None \<Rightarrow> [])\<rparr>\<rparr>))
      else (Completed, f))"

text \<open>
  Advance: \<open>if self.needs_next_subtask\<close>. \<open>task_complete\<close> is the branch of the empty
  queue, which ends with \<open>break\<close>.
\<close>

definition done_info :: info_dict where
  "done_info =
     [''executor_plan'' \<mapsto> PStr ''agent.done()'',
      ''plan_code'' \<mapsto> PStr ''agent.done()'',
      ''reflection'' \<mapsto> PStr ''agent.done()'']"

definition task_complete :: "('w, 'o) collaborators \<Rightarrow> 'w frame \<Rightarrow> 'w frame" where
  "task_complete c f =
     (let f1 = f\<lparr>agent := (agent f)
                 \<lparr>requires_replan := True,
                  needs_next_subtask := True,
                  failure_subtask := None,
                  completed_tasks :=
                    (case current_subtask (agent f) of
                       Some t \<Rightarrow> completed_tasks (agent f) @ [t]
                     | None \<Rightarrow> completed_tasks (agent f))\<rparr>\<rparr>;
          f2 = reset_executor_state c f1
      in f2\<lparr>agent := (agent f2)\<lparr>should_send_action := True, subtask_status := ''Done''\<rparr>,
            executor_info := done_info,
            actions := [PStr ''DONE'']\<rparr>)"

definition advance_phase :: "('w, 'o) collaborators \<Rightarrow> 'w frame \<Rightarrow> outcome \<times> 'w frame" where
  "advance_phase c f =
     (if needs_next_subtask (agent f) then
        (case subtasks (agent f) of
           [] \<Rightarrow> (Broke, task_complete c f)
         | t # rest \<Rightarrow>
             (Completed,
              f\<lparr>agent := (agent f)
                   \<lparr>current_subtask := Some t,
                    subtasks := rest,
                    needs_next_subtask := False,
                    subtask_status := ''Start''\<rparr>\<rparr>))
      else (Completed, f))"

text \<open>
  Execute: the executor's call and the step counter. Reading \<open>self.current_subtask.name\<close>
  raises when there is no current subtask.
\<close>

definition execute_phase ::
  "('w, 'o) collaborators \<Rightarrow> string \<Rightarrow> 'o \<Rightarrow> 'w frame \<Rightarrow> outcome \<times> 'w frame" where
  "execute_phase c instruction observation f =
     (case current_subtask (agent f) of
        None \<Rightarrow>
          (Raised (AttributeError ''NoneType object has no attribute name''), f)
      | Some t \<Rightarrow>
          (case executor_generate_next_action c instruction (search_query (agent f))
                  (name t) (info t) (subtasks (agent f)) (completed_tasks (agent f))
                  observation (world f) of
             (Inl e, w) \<Rightarrow> (Raised e, f\<lparr>world := w, events := events f @ [Failed e]\<rparr>)
           | (Inr (einfo, acts), w) \<Rightarrow>
               (Completed,
                f\<lparr>world := w,
                  events := events f @ [Executed acts],
                  executor_info := einfo,
                  actions := acts,
                  agent := (agent f)\<lparr>step_count := step_count (agent f) + 1\<rparr>\<rparr>)))"

text \<open>
  Verify: \<open>if self.current_subtask\<close>. \<open>record_verdict\<close> writes the verdict into
  \<open>executor_info\<close>, \<open>verification_failed\<close> is the body of \<open>if not is_success\<close>.
\<close>

definition record_verdict :: "bool \<Rightarrow> string \<Rightarrow> pyval \<Rightarrow> 'w \<Rightarrow> 'w frame \<Rightarrow> 'w frame" where
  "record_verdict is_success reasoning verification w f =
     f\<lparr>world := w,
       events := events f @ [Verified is_success],
       executor_info := (executor_info f)
         (''verification_success'' \<mapsto> PBool is_success,
          ''verification_reasoning'' \<mapsto> PStr reasoning,
          ''verification_info'' \<mapsto> verification)\<rparr>"

definition verification_failed :: "('w, 'o) collaborators \<Rightarrow> 'w frame \<Rightarrow> 'w frame" where
  "verification_failed c f =
     (let f1 = reset_executor_state c
                 (f\<lparr>agent := (agent f)
                      \<lparr>requires_replan := True,
                       needs_next_subtask := True,
                       failure_subtask := current_subtask (agent f)\<rparr>\<rparr>)
      in if subtasks (agent f1) \<noteq> []
         then f1\<lparr>agent := (agent f1)\<lparr>should_send_action := False\<rparr>\<rparr>
         else f1)"

definition verify_phase ::
  "('w, 'o) collaborators \<Rightarrow> 'o \<Rightarrow> 'w frame \<Rightarrow> outcome \<times> 'w frame" where
  "verify_phase c observation f =
     (case current_subtask (agent f) of
        None \<Rightarrow> (Completed, f)
      | Some t \<Rightarrow>
          (case verifier_verify_execution c (name t @ '': '' @ info t) (executor_info f)
                  observation (world f) of
             (Inl e, w) \<Rightarrow> (Raised e, f\<lparr>world := w, events := events f @ [Failed e]\<rparr>)
           | (Inr (is_success, reasoning, verification), w) \<Rightarrow>
               (let f1 = record_verdict is_success reasoning verification w f
                in (Completed, if \<not> is_success then verification_failed c f1 else f1))))"

text \<open>
  Outcome classification: \<open>self.should_send_action = True\<close>, then the markers in the
  action. \<open>failure_marker\<close> is \<open>any("FAIL" in str(action) for action in actions)\<close>,
  \<open>completion_marker\<close> the condition of the \<open>elif\<close>; \<open>execution_failed\<close> and
  \<open>subtask_completed\<close> are the two branches.
\<close>

definition failure_marker :: "pyval list \<Rightarrow> bool" where
  "failure_marker acts = list_ex (\<lambda>a. contains ''FAIL'' (py_str a)) acts"

definition completion_marker :: "pyval list \<Rightarrow> bool" where
  "completion_marker acts =
     (list_ex (\<lambda>a. contains ''DONE'' (py_str a)) acts \<or>
      list_ex (\<lambda>a. contains ''goal_status'' (py_str a) \<and> contains ''complete'' (py_str a)) acts)"

definition execution_failed :: "('w, 'o) collaborators \<Rightarrow> 'w frame \<Rightarrow> 'w frame" where
  "execution_failed c f =
     (let f1 = reset_executor_state c
                 (f\<lparr>agent := (agent f)
                      \<lparr>requires_replan := True,
                       needs_next_subtask := True,
                       failure_subtask := current_subtask (agent f)\<rparr>\<rparr>)
      in if subtasks (agent f1) \<noteq> []
         then f1\<lparr>agent := (agent f1)\<lparr>should_send_action := False\<rparr>\<rparr>
         else f1)"

definition subtask_completed :: "('w, 'o) collaborators \<Rightarrow> 'w frame \<Rightarrow> 'w frame" where
  "subtask_completed c f =
     (let f1 = reset_executor_state c
                 (f\<lparr>agent := (agent f)
                      \<lparr>requires_replan := True,
                       needs_next_subtask := True,
                       failure_subtask := None,
                       completed_tasks :=
                         (case current_subtask (agent f) of
                            Some t \<Rightarrow> completed_tasks (agent f) @ [t]
                          | None \<Rightarrow> completed_tasks (agent f))\<rparr>\<rparr>);
          f2 = (if subtasks (agent f1) \<noteq> []
                then f1\<lparr>agent := (agent f1)\<lparr>should_send_action := False\<rparr>\<rparr>
                else f1)
      in f2\<lparr>agent := (agent f2)\<lparr>subtask_status := ''Done''\<rparr>\<rparr>)"

definition classify_phase :: "('w, 'o) collaborators \<Rightarrow> 'w frame \<Rightarrow> 'w frame" where
  "classify_phase c f =
     (let f0 = f\<lparr>agent := (agent f)\<lparr>should_send_action := True\<rparr>\<rparr>;
          f1 = (if failure_marker (actions f0) then execution_failed c f0
                else if completion_marker (actions f0) then subtask_completed c f0
                else f0)
      in f1\<lparr>agent := (agent f1)\<lparr>turn_count := turn_count (agent f1) + 1\<rparr>\<rparr>)"

text \<open>One pass through the body of \<open>while not self.should_send_action\<close>.\<close>

definition predict_step ::
  "('w, 'o) collaborators \<Rightarrow> string \<Rightarrow> 'o \<Rightarrow> 'w frame \<Rightarrow> outcome \<times> 'w frame" where
  "predict_step c instruction observation f =
     and_then (replan_phase c instruction observation
                 (f\<lparr>agent := (agent f)\<lparr>subtask_status := ''In''\<rparr>\<rparr>))
       (\<lambda>f1. and_then (advance_phase c f1)
          (\<lambda>f2. and_then (execute_phase c instruction observation f2)
             (\<lambda>f3. and_then (verify_phase c observation f3)
                (\<lambda>f4. (Completed, classify_phase c f4)))))"

text \<open>
  The same pass up to the classification: Replan, Advance, Execute and Verify. Its
  frame is the state in which the markers of the action are examined.
\<close>

definition before_classification ::
  "('w, 'o) collaborators \<Rightarrow> string \<Rightarrow> 'o \<Rightarrow> 'w frame \<Rightarrow> outcome \<times> 'w frame" where
  "before_classification c instruction observation f =
     and_then (replan_phase c instruction observation
                 (f\<lparr>agent := (agent f)\<lparr>subtask_status := ''In''\<rparr>\<rparr>))
       (\<lambda>f1. and_then (advance_phase c f1)
          (\<lambda>f2. and_then (execute_phase c instruction observation f2)
             (\<lambda>f3. verify_phase c observation f3)))"

text \<open>
  The loop. It may run forever (a planner that keeps planning for an executor that keeps
  failing), so it is a partial function: \<open>None\<close> is the call that does not return.
  \<open>Completed\<close> in the result says that the loop ended by its condition.
\<close>

partial_function (option) predict_loop ::
  "('w, 'o) collaborators \<Rightarrow> string \<Rightarrow> 'o \<Rightarrow> 'w frame \<Rightarrow> (outcome \<times> 'w frame) option" where
  "predict_loop c instruction observation f =
     (if should_send_action (agent f) then Some (Completed, f)
      else (case predict_step c instruction observation f of
              (Completed, f') \<Rightarrow> predict_loop c instruction observation f'
            | (Raised e, f') \<Rightarrow> Some (Raised e, f')
            | (Broke, f') \<Rightarrow> Some (Broke, f')))"

text \<open>The merged info dictionary that \<open>predict\<close> returns.\<close>

definition evaluator_info :: info_dict where
  "evaluator_info =
     [''obs_evaluator_response'' \<mapsto> PStr [],
      ''num_input_tokens_evaluator'' \<mapsto> PInt 0,
      ''num_output_tokens_evaluator'' \<mapsto> PInt 0,
      ''evaluator_cost'' \<mapsto> PFloat ''0.0'']"

definition merged_info :: "'w frame \<Rightarrow> info_dict" where
  "merged_info f =
     (planner_info f ++ executor_info f ++ evaluator_info)
       (''subtask'' \<mapsto>
          (case current_subtask (agent f) of Some t \<Rightarrow> PStr (name t) | None \<Rightarrow> PStr ''None''),
        ''subtask_info'' \<mapsto>
          (case current_subtask (agent f) of Some t \<Rightarrow> PStr (info t) | None \<Rightarrow> PDict []),
        ''subtask_status'' \<mapsto> PStr (subtask_status (agent f)))"

text \<open>
  \<open>predict\<close>: what the call returns (or the exception it raises), how the loop ended,
  the object and the world afterwards, and the events of the call.
\<close>

record 'w predict_result =
  returned :: "exn + info_dict \<times> pyval list"
  loop_exit :: outcome
  agent_after :: agent_state
  world_after :: 'w
  trace :: "event list"

definition initial_frame :: "agent_state \<Rightarrow> 'w \<Rightarrow> 'w frame" where
  "initial_frame s w =
     \<lparr>agent = s, world = w, planner_info = Map.empty, executor_info = Map.empty,
      actions = [], events = []\<rparr>"

definition finish :: "outcome \<times> 'w frame \<Rightarrow> 'w predict_result" where
  "finish r =
     (case r of
        (Raised e, f) \<Rightarrow>
          \<lparr>returned = Inl e, loop_exit = Raised e, agent_after = agent f,
           world_after = world f, trace = events f\<rparr>
      | (ex, f) \<Rightarrow>
          (let f' = f\<lparr>agent := (agent f)\<lparr>should_send_action := False\<rparr>\<rparr>
           in \<lparr>returned = Inr (merged_info f', actions f'), loop_exit = ex,
               agent_after = agent f', world_after = world f', trace = events f'\<rparr>))"

definition predict ::
  "('w, 'o) collaborators \<Rightarrow> string \<Rightarrow> 'o \<Rightarrow> agent_state \<Rightarrow> 'w \<Rightarrow> 'w predict_result option" where
  "predict c instruction observation s w =
     map_option finish (predict_loop c instruction observation (initial_frame s w))"

text \<open>
  Scripted collaborators for examples (the test double of the spec's design notes): the
  world is the script, and each call takes the next reply of its list; a call whose
  list is exhausted raises.
\<close>

record script =
  plans :: "Node list list"
  replies :: "pyval list list"
  verdicts :: "bool list"
  resets :: nat

definition scripted :: "(script, unit) collaborators" where
  "scripted =
     \<lparr>planner_get_action_queue = (\<lambda>instruction ob failed completed remaining w.
        (case plans w of
           [] \<Rightarrow> (Inl (OtherException ''no plan scripted''), w)
         | p # ps \<Rightarrow> (Inr (Map.empty, p), w\<lparr>plans := ps\<rparr>))),
      executor_generate_next_action = (\<lambda>instruction query subtask subtask_info future finished ob w.
        (case replies w of
           [] \<Rightarrow> (Inl (OtherException ''no action scripted''), w)
         | a # as \<Rightarrow> (Inr ([''executor_plan'' \<mapsto> PStr ''scripted''], a), w\<lparr>replies := as\<rparr>))),
      verifier_verify_execution = (\<lambda>goal result ob w.
        (case verdicts w of
           [] \<Rightarrow> (Inl (OtherException ''no verdict scripted''), w)
         | v # vs \<Rightarrow> (Inr (v, ''REASONING: scripted'', PNone), w\<lparr>verdicts := vs\<rparr>))),
      reset_executor = (\<lambda>w. w\<lparr>resets := resets w + 1\<rparr>),
      reset_verifier = (\<lambda>w. w)\<rparr>"

definition subtask_A :: Node where
  "subtask_A = \<lparr>name = ''Open Settings app'', info = ''Open the Settings app''\<rparr>"

definition subtask_B :: Node where
  "subtask_B = \<lparr>name = ''Open Wi-Fi page'', info = ''Tap the Wi-Fi entry''\<rparr>"

definition click_action :: pyval where
  "click_action = PDict [(''action_type'', PStr ''click''), (''index'', PInt 1)]"

text \<open>
  A completed pass through the loop body is a failure transition when the executor's
  action carries the failure marker, or when the verifier's verdict is a failure and the
  action carries no completion marker (with a completion marker the completion branch
  runs, which clears the failure pointer).
\<close>

definition failure_transition :: "'w frame \<Rightarrow> bool" where
  "failure_transition f =
     (failure_marker (actions f) \<or>
      (executor_info f ''verification_success'' = Some (PBool False) \<and>
       \<not> completion_marker (actions f)))"

text \<open>The executor's latest reply among the events of a call.\<close>

fun last_executed :: "event list \<Rightarrow> pyval list option" where
  "last_executed [] = None"
| "last_executed (e # es) =
     (case last_executed es of
        Some a \<Rightarrow> Some a
      | None \<Rightarrow> (case e of Executed a \<Rightarrow> Some a | _ \<Rightarrow> None))"

text \<open>
  The Advance step of the pass that starts in frame \<open>f\<close> finds the queue empty: the
  Replan step went through, a next subtask is needed, and no subtask is queued.
\<close>

definition advance_finds_empty ::
  "('w, 'o) collaborators \<Rightarrow> string \<Rightarrow> 'o \<Rightarrow> 'w frame \<Rightarrow> bool" where
  "advance_finds_empty c instruction observation f =
     (case replan_phase c instruction observation
             (f\<lparr>agent := (agent f)\<lparr>subtask_status := ''In''\<rparr>\<rparr>) of
        (Completed, f1) \<Rightarrow> needs_next_subtask (agent f1) \<and> subtasks (agent f1) = []
      | _ \<Rightarrow> False)"

definition returned_actions :: "'w predict_result \<Rightarrow> pyval list option" where
  "returned_actions r = (case returned r of Inr (i, a) \<Rightarrow> Some a | Inl e \<Rightarrow> None)"

definition returned_info :: "'w predict_result \<Rightarrow> info_dict option" where
  "returned_info r = (case returned r of Inr (i, a) \<Rightarrow> Some i | Inl e \<Rightarrow> None)"


definition rejected_click_script :: script where
  "rejected_click_script =
     \<lparr>plans = [[subtask_A, subtask_B], [subtask_A, subtask_B]],
      replies = [[click_action], [click_action]],
      verdicts = [False, False], resets = 0\<rparr>"

definition failed_action_script :: script where
  "failed_action_script =
     \<lparr>plans = [[subtask_A, subtask_B], [subtask_B]],
      replies = [[PStr ''FAIL: Could not parse plan output''], [click_action]],
      verdicts = [True, True], resets = 0\<rparr>"

definition empty_plan_script :: script where
  "empty_plan_script = \<lparr>plans = [[]], replies = [], verdicts = [], resets = 0\<rparr>"

definition remaining_after :: "'w predict_result \<Rightarrow> Node list" where
  "remaining_after r = subtasks (agent_after r)"

text \<open>The frame in which a scripted call starts, and the frame after its first pass.\<close>

definition start_frame :: "script \<Rightarrow> script frame" where
  "start_frame sc = initial_frame initial_agent_state sc"

definition first_pass :: "script \<Rightarrow> script frame" where
  "first_pass sc = snd (predict_step scripted ''open settings'' () (start_frame sc))"

text \<open>The frame in which the next call starts after a first pass that was sent, and the
  frame after the first pass of that call.\<close>

definition second_start :: "script \<Rightarrow> script frame" where
  "second_start sc =
     initial_frame ((agent (first_pass sc))\<lparr>should_send_action := False\<rparr>)
       (world (first_pass sc))"

definition second_pass :: "script \<Rightarrow> script frame" where
  "second_pass sc = snd (predict_step scripted ''open settings'' () (second_start sc))"

section \<open>The memory journals (agent_s.py: update_narrative_memory, update_episodic_memory)\<close>

text \<open>
  A journal is a JSON object from keys to summaries. The two files of the knowledge
  base hold one journal each; \<open>None\<close> is a file that is missing or cannot be read, for
  which \<open>json.load(open(path))\<close> raises and the code starts from \<open>{}\<close>. Writing a file
  succeeds. The summaries come from the planner's oracle, which may raise.
\<close>

type_synonym journal = "string \<rightharpoonup> string"

record kb_files =
  narrative_memory :: "journal option"
  episodic_memory :: "journal option"

definition load_journal :: "journal option \<Rightarrow> journal" where
  "load_journal file = (case file of Some j \<Rightarrow> j | None \<Rightarrow> Map.empty)"

text \<open>
  \<open>update_narrative_memory\<close>: keyed by \<open>self.search_query\<close>; every exception is caught
  and logged.
\<close>

definition update_narrative_memory ::
  "(string \<Rightarrow> exn + string) \<Rightarrow> agent_state \<Rightarrow> string \<Rightarrow> kb_files \<Rightarrow> kb_files" where
  "update_narrative_memory summarize_narrative self trajectory fs =
     (let reflections = load_journal (narrative_memory fs)
      in if reflections (search_query self) = None then
           (case summarize_narrative trajectory of
              Inl e \<Rightarrow> fs
            | Inr reflection \<Rightarrow>
                fs\<lparr>narrative_memory := Some (reflections(search_query self \<mapsto> reflection))\<rparr>)
         else fs\<lparr>narrative_memory := Some reflections\<rparr>)"

text \<open>
  \<open>update_episodic_memory\<close>. \<open>meta_data\<close> is an info dictionary as \<open>predict\<close> returns
  it; a missing key raises \<open>KeyError\<close>, and concatenating a value that is not a string
  raises \<open>TypeError\<close>. The key of a finished trajectory is its text before the first
  plan separator. An exception of the oracle is not caught here. The result is the new
  trajectory, beside the files as they are after the call.
\<close>

definition plan_separator :: string where
  "plan_separator = [CHR 0x0A] @ ''----------------------'' @ [CHR 0x0A, CHR 0x0A] @ ''Plan:'' @
     [CHR 0x0A]"

definition completed_suffix :: string where
  "completed_suffix = [CHR 0x0A] @ ''Android Subtask Completed.'' @ [CHR 0x0A]"

text \<open>\<open>s.split(sep)[0]\<close>.\<close>

definition before_first :: "string \<Rightarrow> string \<Rightarrow> string" where
  "before_first sep s = (case find_sub sep s of Some i \<Rightarrow> take i s | None \<Rightarrow> s)"

definition subtask_key :: "string \<Rightarrow> string" where
  "subtask_key subtask_trajectory =
     before_first plan_separator (subtask_trajectory @ completed_suffix)"

definition lookup :: "info_dict \<Rightarrow> string \<Rightarrow> exn + pyval" where
  "lookup d k = (case d k of Some v \<Rightarrow> Inr v | None \<Rightarrow> Inl (KeyError k))"

definition concat_str :: "string \<Rightarrow> pyval \<Rightarrow> exn + string" where
  "concat_str s v =
     (case v of
        PStr t \<Rightarrow> Inr (s @ t)
      | _ \<Rightarrow> Inl (TypeError ''can only concatenate str to str''))"

definition bind_result :: "exn + 'a \<Rightarrow> ('a \<Rightarrow> exn + 'b) \<Rightarrow> exn + 'b" where
  "bind_result r k = (case r of Inl e \<Rightarrow> Inl e | Inr x \<Rightarrow> k x)"

text \<open>The start of a new trajectory (the assignment after the \<open>if subtask_trajectory\<close>).\<close>

definition new_trajectory :: "agent_state \<Rightarrow> info_dict \<Rightarrow> pyval \<Rightarrow> pyval \<Rightarrow> exn + string" where
  "new_trajectory self meta_data subtask subtask_info =
     bind_result (concat_str (''Android Task:'' @ [CHR 0x0A] @ search_query self @ [CHR 0x0A, CHR 0x0A] @
                       ''Android Subtask: '') subtask)
       (\<lambda>s1. bind_result (concat_str (s1 @ [CHR 0x0A] @ ''Android Subtask Instruction: '') subtask_info)
          (\<lambda>s2. bind_result (lookup meta_data ''executor_plan'')
             (\<lambda>executor_plan. bind_result (concat_str (s2 @ plan_separator) executor_plan)
                (\<lambda>s3. Inr (s3 @ [CHR 0x0A])))))"

text \<open>The write of a finished trajectory into the episodic journal.\<close>

definition store_episode ::
  "(string \<Rightarrow> exn + string) \<Rightarrow> string \<Rightarrow> kb_files \<Rightarrow> exn option \<times> kb_files" where
  "store_episode summarize_episode subtask_trajectory fs =
     (let finished = subtask_trajectory @ completed_suffix;
          key = before_first plan_separator finished;
          kb = load_journal (episodic_memory fs)
      in if kb key = None then
           (case summarize_episode finished of
              Inl e \<Rightarrow> (Some e, fs)
            | Inr subtask_summarization \<Rightarrow>
                (None, fs\<lparr>episodic_memory := Some (kb(key \<mapsto> subtask_summarization))\<rparr>))
         else (None, fs\<lparr>episodic_memory := Some kb\<rparr>))"

definition update_episodic_memory ::
  "(string \<Rightarrow> exn + string) \<Rightarrow> agent_state \<Rightarrow> info_dict \<Rightarrow> string \<Rightarrow> kb_files
     \<Rightarrow> (exn + string) \<times> kb_files" where
  "update_episodic_memory summarize_episode self meta_data subtask_trajectory fs =
     (case lookup meta_data ''subtask'' of
        Inl e \<Rightarrow> (Inl e, fs)
      | Inr subtask \<Rightarrow>
     (case lookup meta_data ''subtask_info'' of
        Inl e \<Rightarrow> (Inl e, fs)
      | Inr subtask_info \<Rightarrow>
     (case lookup meta_data ''subtask_status'' of
        Inl e \<Rightarrow> (Inl e, fs)
      | Inr status \<Rightarrow>
          if status = PStr ''Start'' \<or> status = PStr ''Done'' then
            (if subtask_trajectory \<noteq> [] then
               (case store_episode summarize_episode subtask_trajectory fs of
                  (Some e, fs') \<Rightarrow> (Inl e, fs')
                | (None, fs') \<Rightarrow> (new_trajectory self meta_data subtask subtask_info, fs'))
             else (new_trajectory self meta_data subtask subtask_info, fs))
          else if status = PStr ''In'' then
            (bind_result (lookup meta_data ''executor_plan'')
               (\<lambda>executor_plan. bind_result (concat_str (subtask_trajectory @ plan_separator) executor_plan)
                  (\<lambda>s. Inr (s @ [CHR 0x0A]))),
             fs)
          else (Inr subtask_trajectory, fs))))"

text \<open>An example: the info of a finished subtask and the trajectory it closes.\<close>

definition example_meta :: info_dict where
  "example_meta =
     [''subtask'' \<mapsto> PStr ''Open Settings app'',
      ''subtask_info'' \<mapsto> PStr ''Open the Settings app'',
      ''subtask_status'' \<mapsto> PStr ''Done'',
      ''executor_plan'' \<mapsto> PStr ''agent.done()'']"

definition example_trajectory :: string where
  "example_trajectory =
     ''Android Task:'' @ [CHR 0x0A] @ ''open settings'' @ [CHR 0x0A, CHR 0x0A] @
     ''Android Subtask: Open Settings app'' @ [CHR 0x0A] @
     ''Android Subtask Instruction: Open the Settings app'' @ plan_separator @
     ''click the icon'' @ [CHR 0x0A]"

definition example_agent :: agent_state where
  "example_agent = initial_agent_state\<lparr>search_query := ''open settings''\<rparr>"

definition no_files :: kb_files where
  "no_files = \<lparr>narrative_memory = None, episodic_memory = None\<rparr>"

text \<open>
  The calls of \<open>update_episodic_memory\<close> that write the journal: the three entries are
  there and the status is \<open>Start\<close> or \<open>Done\<close> (with a trajectory that is not empty).
\<close>

definition closes_subtask :: "info_dict \<Rightarrow> bool" where
  "closes_subtask meta_data =
     (meta_data ''subtask'' \<noteq> None \<and> meta_data ''subtask_info'' \<noteq> None \<and>
      (meta_data ''subtask_status'' = Some (PStr ''Start'') \<or>
       meta_data ''subtask_status'' = Some (PStr ''Done'')))"

definition narrative_journal :: "kb_files \<Rightarrow> journal" where
  "narrative_journal fs = load_journal (narrative_memory fs)"

definition episodic_journal :: "kb_files \<Rightarrow> journal" where
  "episodic_journal fs = load_journal (episodic_memory fs)"

definition summary_A :: "string \<Rightarrow> exn + string" where
  "summary_A trajectory = Inr ''summary A''"

definition summary_B :: "string \<Rightarrow> exn + string" where
  "summary_B trajectory = Inr ''summary B''"

section \<open>The executor (worker.py: AndroidWorker)\<close>

text \<open>\<open>s.replace(old, new)\<close> for a pattern \<open>old\<close> that is not empty (for the empty
  pattern, which the worker never passes, the string is returned as it is).\<close>

function replace_all :: "string \<Rightarrow> string \<Rightarrow> string \<Rightarrow> string" where
  "replace_all old new s =
     (if old = [] \<or> s = [] then s
      else if starts_with old s then new @ replace_all old new (drop (length old) s)
      else hd s # replace_all old new (tl s))"
  by pat_completeness auto
termination
  by (relation "measure (\<lambda>(old, new, s). length s)") auto

text \<open>
  The worker's fields. \<open>previous_obs\<close> stands for \<open>_previous_activity\<close> and
  \<open>_previous_ui_elements\<close> (both read from the last observation), \<open>screenshot_inputs\<close>
  is the number of stored screenshots; the cost counter and the printing are left out.
\<close>

record 'o worker =
  generator_agent :: lmm_agent
  reflection_agent :: lmm_agent
  worker_turn_count :: nat
  planner_history :: "string list"
  reflections :: "string list"
  screenshot_inputs :: nat
  max_trajector_length :: nat
  enable_reflection :: bool
  previous_obs :: "'o option"

text \<open>The result of decoding a literal with \<open>ast.literal_eval\<close> and, on its
  \<open>SyntaxError\<close> or \<open>ValueError\<close>, with \<open>json.loads\<close>: a value, failure of both, or an
  exception of another class, which \<open>extract_json\<close> does not catch.\<close>

datatype decoded = Decoded pyval | Undecodable | DecodeRaises exn

text \<open>
  What the worker takes from outside: the oracle, the Python library, android_world's
  \<open>JSONAction\<close> and environment (\<open>'a\<close> is the type of its actions, \<open>'e\<close> of the device),
  and the texts of the turns, which are formatted from the arguments:
  \<open>screen_changed\<close> is the change detection (from the previous and the current
  observation and the turn count), \<open>reflection_intro\<close> the text added to the reflection
  agent's system prompt, \<open>clean_generation\<close> is \<open>clean_worker_generation_for_reflection\<close>,
  \<open>generator_message\<close> the text of the user turn (from the reflection, the change flag,
  the turn count, the history, the subtask, its info and the observation).
\<close>

record ('o, 'e, 'a) worker_env =
  call_llm_safe :: "lmm_agent \<Rightarrow> string"
  literal_eval :: "string \<Rightarrow> decoded"
  json_dumps :: "pyval \<Rightarrow> exn + string"
  make_action :: "(string \<times> pyval) list \<Rightarrow> exn + 'a"
  env_execute_action :: "'a \<Rightarrow> 'e \<Rightarrow> (exn + pyval) \<times> 'e"
  keyboard_enter :: 'a
  screen_changed :: "'o option \<Rightarrow> 'o \<Rightarrow> nat \<Rightarrow> bool"
  obs_screenshot :: "'o \<Rightarrow> bool"
  reflection_intro :: "string \<Rightarrow> string \<Rightarrow> string"
  clean_generation :: "string \<Rightarrow> string"
  generator_message ::
    "string option \<Rightarrow> bool \<Rightarrow> nat \<Rightarrow> string list \<Rightarrow> string \<Rightarrow> string \<Rightarrow> 'o \<Rightarrow> string"
  calculate_tokens :: "message list \<Rightarrow> int \<times> int"

text \<open>\<open>reset\<close>, from the two system prompts; the reflection switch and the previous
  observation are not touched.\<close>

definition worker_reset :: "string \<Rightarrow> string \<Rightarrow> 'o worker \<Rightarrow> 'o worker" where
  "worker_reset sys_prompt reflection_prompt w =
     w\<lparr>generator_agent := create_agent sys_prompt,
       reflection_agent := create_agent reflection_prompt,
       worker_turn_count := 0,
       planner_history := [],
       reflections := [],
       screenshot_inputs := 0,
       max_trajector_length := 8\<rparr>"

definition flush_messages :: "'o worker \<Rightarrow> 'o worker" where
  "flush_messages w =
     (let w1 = (if length (messages (generator_agent w)) > 2 * max_trajector_length w + 1
                then w\<lparr>generator_agent :=
                         remove_message_at 1 (remove_message_at 1 (generator_agent w))\<rparr>
                else w)
      in if length (messages (reflection_agent w1)) > max_trajector_length w1 + 1
         then w1\<lparr>reflection_agent := remove_message_at 1 (reflection_agent w1)\<rparr>
         else w1)"

text \<open>
  The three regular expressions, all with \<open>re.DOTALL\<close>. \<open>Reason:(.*)Action:\<close> matches
  from the first \<open>Reason:\<close> to the last \<open>Action:\<close> after it (the group is greedy);
  \<open>Action:(.*)\<close> from the first \<open>Action:\<close> to the end; \<open>\{.*?\}\<close> from the first
  opening brace to the first closing brace after it. Each function returns what the
  code takes from the match: the group, or the whole match for the braces.
\<close>

definition search_reason :: "string \<Rightarrow> string option" where
  "search_reason s =
     (case find_sub ''Reason:'' s of
        None \<Rightarrow> None
      | Some i \<Rightarrow>
          (let rest = drop (i + 7) s
           in case rfind_sub ''Action:'' rest of
                None \<Rightarrow> None
              | Some j \<Rightarrow> Some (take j rest)))"

definition search_action :: "string \<Rightarrow> string option" where
  "search_action s =
     (case find_sub ''Action:'' s of None \<Rightarrow> None | Some i \<Rightarrow> Some (drop (i + 7) s))"

definition search_braces :: "string \<Rightarrow> string option" where
  "search_braces s =
     (case find_sub ''{'' s of
        None \<Rightarrow> None
      | Some i \<Rightarrow>
          (case find_sub ''}'' (drop (Suc i) s) of
             None \<Rightarrow> None
           | Some j \<Rightarrow> Some (take (j + 2) (drop i s))))"

definition extract_json :: "('o, 'e, 'a) worker_env \<Rightarrow> string \<Rightarrow> exn + pyval option" where
  "extract_json E s =
     (case search_braces s of
        None \<Rightarrow> Inr None
      | Some m \<Rightarrow>
          (case literal_eval E m of
             Decoded v \<Rightarrow> Inr (Some v)
           | Undecodable \<Rightarrow> Inr None
           | DecodeRaises e \<Rightarrow> Inl e))"

definition parse_reason_action_output ::
  "('o, 'e, 'a) worker_env \<Rightarrow> string \<Rightarrow> exn + string option \<times> string option" where
  "parse_reason_action_output E raw_output =
     (let reason = map_option strip (search_reason raw_output);
          action = map_option strip (search_action raw_output)
      in case action of
           None \<Rightarrow> Inr (reason, action)
         | Some a \<Rightarrow>
             if a = [] then Inr (reason, action)
             else (case extract_json E a of
                     Inl e \<Rightarrow> Inl e
                   | Inr None \<Rightarrow> Inr (reason, action)
                   | Inr (Some extracted) \<Rightarrow>
                       (case json_dumps E extracted of
                          Inl e \<Rightarrow> Inl e
                        | Inr dumped \<Rightarrow> Inr (reason, Some dumped))))"

text \<open>Truthiness of an optional string (\<open>if reason and action\<close>).\<close>

definition given :: "string option \<Rightarrow> bool" where
  "given s = (case s of None \<Rightarrow> False | Some t \<Rightarrow> t \<noteq> [])"

text \<open>
  The execution of a decoded action (the body of \<open>if action_dict\<close>): build the
  \<open>JSONAction\<close>, execute it, and press Enter after an \<open>input_text\<close>. Every exception
  becomes a failure string; one raised by the Enter key is dropped.
\<close>

definition execution_error :: "exn \<Rightarrow> pyval" where
  "execution_error e = PStr (''FAIL: Error executing action - '' @ exn_message e)"

definition execute_action_dict ::
  "('o, 'e, 'a) worker_env \<Rightarrow> pyval \<Rightarrow> 'e \<Rightarrow> pyval \<times> 'e" where
  "execute_action_dict E action_dict dev =
     (case action_dict of
        PDict kvs \<Rightarrow>
          (case make_action E kvs of
             Inl e \<Rightarrow> (execution_error e, dev)
           | Inr converted_action \<Rightarrow>
               (case env_execute_action E converted_action dev of
                  (Inl e, dev1) \<Rightarrow> (execution_error e, dev1)
                | (Inr r, dev1) \<Rightarrow>
                    (let exec_code =
                           (if r = PNone then PStr ''SUCCESS: Action executed successfully''
                            else r)
                     in if map_of kvs ''action_type'' = Some (PStr ''input_text'')
                        then (exec_code, snd (env_execute_action E (keyboard_enter E) dev1))
                        else (exec_code, dev1))))
      | _ \<Rightarrow> (execution_error (TypeError ''argument after ** must be a mapping''), dev))"

text \<open>
  The \<open>try\<close> block that parses and executes the plan. Its result is the pair
  \<open>(reason, action)\<close> when the parser returned (\<open>None\<close> when it raised, which leaves both
  variables unbound), \<open>exec_code\<close>, and the device. The outer handler waits.
\<close>

definition run_plan ::
  "('o, 'e, 'a) worker_env \<Rightarrow> string \<Rightarrow> 'e
     \<Rightarrow> (string option \<times> string option) option \<times> pyval \<times> 'e" where
  "run_plan E plan dev =
     (case parse_reason_action_output E plan of
        Inl e \<Rightarrow> (None, PStr wait_result, dev)
      | Inr (reason, action) \<Rightarrow>
          if given reason \<and> given action then
            (case extract_json E (the action) of
               Inl e \<Rightarrow> (Some (reason, action), execution_error e, dev)
             | Inr None \<Rightarrow>
                 (Some (reason, action), PStr ''FAIL: Could not parse JSON action'', dev)
             | Inr (Some action_dict) \<Rightarrow>
                 if truthy action_dict then
                   (case execute_action_dict E action_dict dev of
                      (exec_code, dev1) \<Rightarrow> (Some (reason, action), exec_code, dev1))
                 else (Some (reason, action), PStr ''FAIL: Could not parse JSON action'', dev))
          else (Some (reason, action), PStr ''FAIL: Could not parse plan output'', dev))"

text \<open>The \<open>return\<close> statements at the end: the decoded action when there is one, else
  \<open>exec_code\<close>; reading \<open>reason\<close> raises when the parser had raised.\<close>

definition returned_action ::
  "('o, 'e, 'a) worker_env \<Rightarrow> (string option \<times> string option) option \<Rightarrow> pyval
     \<Rightarrow> exn + pyval list" where
  "returned_action E parsed exec_code =
     (case parsed of
        None \<Rightarrow> Inl (UnboundLocalError ''reason'')
      | Some (reason, action) \<Rightarrow>
          if given reason \<and> given action then
            (case extract_json E (the action) of
               Inr (Some action_dict) \<Rightarrow>
                 if truthy action_dict then Inr [action_dict] else Inr [exec_code]
             | _ \<Rightarrow> Inr [exec_code])
          else Inr [exec_code])"

text \<open>
  The turns added before the plan is parsed: the system prompt at the first turn, the
  reflection turn, the user turn and the oracle's plan. The result is the plan, the
  reflection and the change flag, or the \<open>IndexError\<close> of \<open>self.planner_history[-1]\<close>.
\<close>

definition generator_system_prompt ::
  "string \<Rightarrow> string \<Rightarrow> string \<Rightarrow> Node list \<Rightarrow> Node list \<Rightarrow> string" where
  "generator_system_prompt p subtask instruction future_tasks done_task =
     replace_all ''DONE_TASKS'' (join '','' (map name done_task))
       (replace_all ''FUTURE_TASKS'' (join '', '' (map name future_tasks))
          (replace_all ''TASK_DESCRIPTION'' instruction
             (replace_all ''SUBTASK_DESCRIPTION'' subtask p)))"

definition add_reflection_turn ::
  "('o, 'e, 'a) worker_env \<Rightarrow> string \<Rightarrow> string \<Rightarrow> 'o \<Rightarrow> 'o worker
     \<Rightarrow> exn + string option \<times> 'o worker" where
  "add_reflection_turn E subtask subtask_info obs w =
     (if enable_reflection w then
        (if worker_turn_count w = 0 then
           Inr (None,
                w\<lparr>reflection_agent :=
                    add_message ''The initial screen is provided. No action has been taken yet.''
                      (obs_screenshot E obs) ''user''
                      (add_system_prompt
                         (system_prompt (reflection_agent w) @ [CHR 0x0A] @
                            reflection_intro E subtask subtask_info)
                         (reflection_agent w))\<rparr>)
         else
           (case planner_history w of
              [] \<Rightarrow> Inl (IndexError ''list index out of range'')
            | _ # _ \<Rightarrow>
                (let ag = add_message (clean_generation E (last (planner_history w)))
                            (obs_screenshot E obs) ''user'' (reflection_agent w);
                     reflection = call_llm_safe E ag
                 in Inr (Some reflection,
                         w\<lparr>reflection_agent := ag,
                           reflections := reflections w @ [reflection]\<rparr>))))
      else Inr (None, w))"

definition add_generator_turns ::
  "('o, 'e, 'a) worker_env \<Rightarrow> string option \<Rightarrow> bool \<Rightarrow> string \<Rightarrow> string \<Rightarrow> 'o \<Rightarrow> 'o worker
     \<Rightarrow> string \<times> 'o worker" where
  "add_generator_turns E reflection changed subtask subtask_info obs w =
     (let ag = add_message
                 (generator_message E reflection changed (worker_turn_count w)
                    (planner_history w) subtask subtask_info obs)
                 (obs_screenshot E obs) ''user'' (generator_agent w);
          plan = call_llm_safe E ag
      in (plan,
          w\<lparr>planner_history := planner_history w @ [plan],
            generator_agent := add_message plan False ''assistant'' ag\<rparr>))"

definition reflection_value :: "string option \<Rightarrow> pyval" where
  "reflection_value r = (case r of None \<Rightarrow> PNone | Some s \<Rightarrow> PStr s)"

text \<open>The part of \<open>generate_next_action\<close> up to the oracle's plan.\<close>

definition prepare_turn ::
  "('o, 'e, 'a) worker_env \<Rightarrow> string \<Rightarrow> string \<Rightarrow> string \<Rightarrow> Node list \<Rightarrow> Node list
     \<Rightarrow> 'o \<Rightarrow> 'o worker \<Rightarrow> (exn + bool \<times> string option \<times> string) \<times> 'o worker" where
  "prepare_turn E instruction subtask subtask_info future_tasks done_task obs w =
     (let changed = screen_changed E (previous_obs w) obs (worker_turn_count w);
          w1 = w\<lparr>previous_obs := Some obs\<rparr>;
          w2 = (if worker_turn_count w1 = 0
                then w1\<lparr>generator_agent :=
                         add_system_prompt
                           (generator_system_prompt (system_prompt (generator_agent w1))
                              subtask instruction future_tasks done_task)
                           (generator_agent w1)\<rparr>
                else w1)
      in case add_reflection_turn E subtask subtask_info obs w2 of
           Inl e \<Rightarrow> (Inl e, w2)
         | Inr (reflection, w3) \<Rightarrow>
             (case add_generator_turns E reflection changed subtask subtask_info obs w3 of
                (plan, w4) \<Rightarrow> (Inr (changed, reflection, plan), w4)))"

text \<open>The bookkeeping after the plan was run: the turn counter, the screenshot, the
  flush.\<close>

definition close_turn :: "('o, 'e, 'a) worker_env \<Rightarrow> 'o \<Rightarrow> 'o worker \<Rightarrow> 'o worker" where
  "close_turn E obs w =
     (let w1 = w\<lparr>worker_turn_count := worker_turn_count w + 1\<rparr>;
          w2 = (if obs_screenshot E obs
                then w1\<lparr>screenshot_inputs := screenshot_inputs w1 + 1\<rparr>
                else w1)
      in flush_messages w2)"

definition generate_next_action ::
  "('o, 'e, 'a) worker_env \<Rightarrow> string \<Rightarrow> string \<Rightarrow> string \<Rightarrow> string \<Rightarrow> Node list \<Rightarrow> Node list
     \<Rightarrow> 'o \<Rightarrow> 'o worker \<Rightarrow> 'e \<Rightarrow> (exn + info_dict \<times> pyval list) \<times> 'o worker \<times> 'e" where
  "generate_next_action E instruction query subtask subtask_info future_tasks done_task
       obs w dev =
     (case prepare_turn E instruction subtask subtask_info future_tasks done_task obs w of
        (Inl e, w2) \<Rightarrow> (Inl e, w2, dev)
      | (Inr (changed, reflection, plan), w4) \<Rightarrow>
          (case calculate_tokens E (messages (generator_agent w4)) of
             (input_tokens, output_tokens) \<Rightarrow>
          (case run_plan E plan dev of
             (parsed, exec_code, dev1) \<Rightarrow>
               (let executor_info =
                      [''current_subtask'' \<mapsto> PStr subtask,
                       ''current_subtask_info'' \<mapsto> PStr subtask_info,
                       ''executor_plan'' \<mapsto> PStr plan,
                       ''reflection'' \<mapsto> reflection_value reflection,
                       ''num_input_tokens_executor'' \<mapsto> PInt input_tokens,
                       ''num_output_tokens_executor'' \<mapsto> PInt output_tokens,
                       ''screen_changed'' \<mapsto> PBool changed];
                    w5 = close_turn E obs w4
                in (case returned_action E parsed exec_code of
                      Inl e \<Rightarrow> (Inl e, w5, dev1)
                    | Inr acts \<Rightarrow> (Inr (executor_info, acts), w5, dev1))))))"

text \<open>A sequence of calls on the same worker, whatever each of them returns.\<close>

record 'o call_args =
  arg_instruction :: string
  arg_search_query :: string
  arg_subtask :: string
  arg_subtask_info :: string
  arg_future_tasks :: "Node list"
  arg_done_task :: "Node list"
  arg_obs :: 'o

definition call_worker ::
  "('o, 'e, 'a) worker_env \<Rightarrow> 'o call_args \<Rightarrow> 'o worker \<times> 'e \<Rightarrow> 'o worker \<times> 'e" where
  "call_worker E a st =
     snd (generate_next_action E (arg_instruction a) (arg_search_query a) (arg_subtask a)
            (arg_subtask_info a) (arg_future_tasks a) (arg_done_task a) (arg_obs a)
            (fst st) (snd st))"

fun call_sequence ::
  "('o, 'e, 'a) worker_env \<Rightarrow> 'o call_args list \<Rightarrow> 'o worker \<times> 'e \<Rightarrow> 'o worker \<times> 'e" where
  "call_sequence E [] st = st"
| "call_sequence E (a # as) st = call_sequence E as (call_worker E a st)"

text \<open>The bound of the claim on the two conversations.\<close>

definition history_bounded :: "'o worker \<Rightarrow> bool" where
  "history_bounded w =
     (length (messages (generator_agent w)) \<le> 2 * max_trajector_length w + 1 \<and>
      length (messages (reflection_agent w)) \<le> max_trajector_length w + 1)"

text \<open>A no-op wait action: the result of \<open>wait\<close>, or an action of kind \<open>wait\<close>.\<close>

definition is_wait_action :: "pyval \<Rightarrow> bool" where
  "is_wait_action a =
     (case a of
        PStr s \<Rightarrow> s = wait_result
      | PDict kvs \<Rightarrow> map_of kvs ''action_type'' = Some (PStr ''wait'')
      | _ \<Rightarrow> False)"

definition reply_actions :: "exn + info_dict \<times> pyval list \<Rightarrow> pyval list option" where
  "reply_actions r = (case r of Inl e \<Rightarrow> None | Inr (i, a) \<Rightarrow> Some a)"

text \<open>
  An example worker: the oracle answers in prose, without the \<open>Reason:\<close> and
  \<open>Action:\<close> lines; the device counts the actions executed on it.
\<close>

definition example_worker_env :: "(unit, nat, (string \<times> pyval) list) worker_env" where
  "example_worker_env =
     \<lparr>call_llm_safe = (\<lambda>ag. ''I will tap the Settings icon.''),
      literal_eval = (\<lambda>s. Undecodable),
      json_dumps = (\<lambda>v. Inr (py_repr v)),
      make_action = Inr,
      env_execute_action = (\<lambda>a dev. (Inr PNone, Suc dev)),
      keyboard_enter = [(''action_type'', PStr ''keyboard_enter'')],
      screen_changed = (\<lambda>previous ob n. False),
      obs_screenshot = (\<lambda>ob. False),
      reflection_intro = (\<lambda>subtask subtask_info. ''Subtask Description: '' @ subtask),
      clean_generation = (\<lambda>plan. plan),
      generator_message = (\<lambda>reflection changed n history subtask subtask_info ob.
         ''Remember only complete the subtask: '' @ subtask),
      calculate_tokens = (\<lambda>ms. (0, 0))\<rparr>"

definition blank_worker :: "unit worker" where
  "blank_worker =
     \<lparr>generator_agent = \<lparr>system_prompt = [], messages = []\<rparr>,
      reflection_agent = \<lparr>system_prompt = [], messages = []\<rparr>,
      worker_turn_count = 0, planner_history = [], reflections = [],
      screenshot_inputs = 0, max_trajector_length = 0, enable_reflection = True,
      previous_obs = None\<rparr>"

definition example_worker :: "unit worker" where
  "example_worker =
     worker_reset ''You are an Android agent. Subtask: SUBTASK_DESCRIPTION'' ''Reflect.''
       blank_worker"

definition example_call :: "unit call_args" where
  "example_call =
     \<lparr>arg_instruction = ''open settings'', arg_search_query = ''open settings'',
      arg_subtask = ''Open Settings app'', arg_subtask_info = ''Open the Settings app'',
      arg_future_tasks = [], arg_done_task = [], arg_obs = ()\<rparr>"

section \<open>Verification of the claims\<close>

subsection \<open>The verifier's verdict\<close>

lemma parse_success_iff:
  "fst (parse_verification_response response) \<longleftrightarrow>
     contains ''VERIFICATION_RESULT: PASS'' (upper response) \<or>
     \<not> contains ''VERIFICATION_RESULT: FAIL'' (upper response)"
  by (simp add: parse_verification_response_def Let_def)

text \<open>
  Claim C5. Whenever the oracle's reply holds neither the PASS nor the FAIL result
  marker (the verdict cannot be parsed), \<open>_parse_verification_response\<close> yields success
  and \<open>verify_execution\<close> returns, with \<open>is_success = True\<close>.
\<close>

theorem verify_execution_unparsed_is_pass:
  assumes "verifier_llm E (add_message (construct_verification_prompt E manager_goal result ob)
              (verifier_screenshot E ob) ''user'' (verifier_engine v)) = response"
    and "\<not> contains ''VERIFICATION_RESULT: PASS'' (upper response)"
    and "\<not> contains ''VERIFICATION_RESULT: FAIL'' (upper response)"
  shows "fst (parse_verification_response response) = True \<and>
         (\<exists>reasoning vinfo v'.
            verify_execution E manager_goal result ob v = ((True, reasoning, vinfo), v'))"
  using assms
  by (simp add: verify_execution_def parse_verification_response_def Let_def split: prod.splits)

theorem verify_execution_unparsed_is_pass_witness:
  "\<not> contains ''VERIFICATION_RESULT: PASS'' (upper ''I think the worker is in the right app.'') \<and>
   \<not> contains ''VERIFICATION_RESULT: FAIL'' (upper ''I think the worker is in the right app.'') \<and>
   fst (parse_verification_response ''I think the worker is in the right app.'') = True \<and>
   (\<exists>reasoning vinfo v'.
      verify_execution example_verifier_env ''Open Settings: tap the icon'' Map.empty ()
        example_verifier = ((True, reasoning, vinfo), v'))"
proof -
  have r: "verifier_llm example_verifier_env
             (add_message
               (construct_verification_prompt example_verifier_env ''Open Settings: tap the icon''
                  Map.empty ())
               (verifier_screenshot example_verifier_env ()) ''user''
               (verifier_engine example_verifier))
           = ''I think the worker is in the right app.''"
    by (simp add: example_verifier_env_def)
  have p: "\<not> contains ''VERIFICATION_RESULT: PASS'' (upper ''I think the worker is in the right app.'')"
    by code_simp
  have f: "\<not> contains ''VERIFICATION_RESULT: FAIL'' (upper ''I think the worker is in the right app.'')"
    by code_simp
  from verify_execution_unparsed_is_pass [OF r p f] p f show ?thesis by blast
qed

subsection \<open>Index-targeted actuator operations\<close>

lemma starts_with_contains: "starts_with p s \<Longrightarrow> contains p s"
  by (cases s) (auto simp: starts_with_def)

lemma out_of_range_message_marked:
  "starts_with ''FAIL'' (out_of_range_message i n) \<and> contains ''FAIL'' (out_of_range_message i n)"
proof -
  have "starts_with ''FAIL'' (out_of_range_message i n)"
    by (simp add: starts_with_def out_of_range_message_def)
  then show ?thesis by (simp add: starts_with_contains)
qed

text \<open>
  Claim C8. When the index lies outside \<open>0 .. len(ui_elements) - 1\<close>, each of
  \<open>click_by_index\<close>, \<open>long_click_by_index\<close> and \<open>type_by_index\<close> returns the string
  "FAIL: Index i out of range (0-n)", which carries the failure marker, and leaves the
  grounding agent as it was: nothing is handed to the environment, and no exception
  leaves the operation.
\<close>

theorem by_index_out_of_range_fails:
  assumes "get_state ops (env aci) = Inr ui_elements"
    and "i < 0 \<or> int (length ui_elements) \<le> i"
  shows "click_by_index ops i aci = (out_of_range_message i (length ui_elements), aci) \<and>
         long_click_by_index ops i aci = (out_of_range_message i (length ui_elements), aci) \<and>
         type_by_index ops i txt aci = (out_of_range_message i (length ui_elements), aci) \<and>
         starts_with ''FAIL'' (out_of_range_message i (length ui_elements)) \<and>
         contains ''FAIL'' (out_of_range_message i (length ui_elements))"
  using assms out_of_range_message_marked [of i "length ui_elements"]
  by (auto simp: click_by_index_def long_click_by_index_def type_by_index_def)

theorem by_index_out_of_range_fails_witness:
  "click_by_index example_ops 3 example_aci = (''FAIL: Index 3 out of range (0-2)'', example_aci) \<and>
   long_click_by_index example_ops 3 example_aci =
     (''FAIL: Index 3 out of range (0-2)'', example_aci) \<and>
   type_by_index example_ops 3 ''hello'' example_aci =
     (''FAIL: Index 3 out of range (0-2)'', example_aci) \<and>
   executed (snd (click_by_index example_ops 3 example_aci)) = [] \<and>
   contains ''FAIL'' ''FAIL: Index 3 out of range (0-2)''"
proof -
  have g: "get_state example_ops (env example_aci) = Inr [''Settings'', ''Wi-Fi'', ''Search'']"
    by (simp add: example_ops_def)
  have r: "(3::int) < 0 \<or> int (length [''Settings'', ''Wi-Fi'', ''Search'']) \<le> 3"
    by simp
  have m: "out_of_range_message 3 (length [''Settings'', ''Wi-Fi'', ''Search''])
             = ''FAIL: Index 3 out of range (0-2)''"
    by code_simp
  from by_index_out_of_range_fails [OF g r, of "''hello''"] m
  show ?thesis by (simp add: example_aci_def)
qed

subsection \<open>The loop body, phase by phase\<close>

lemma and_then_Completed:
  "and_then r k = (Completed, f') \<longleftrightarrow> (\<exists>f1. r = (Completed, f1) \<and> k f1 = (Completed, f'))"
  by (cases r; cases "fst r") (auto simp: and_then_def)

lemma and_then_Broke:
  "and_then r k = (Broke, f') \<longleftrightarrow>
     r = (Broke, f') \<or> (\<exists>f1. r = (Completed, f1) \<and> k f1 = (Broke, f'))"
  by (cases r; cases "fst r") (auto simp: and_then_def)

lemma predict_step_Completed:
  "predict_step c i ob f = (Completed, f') \<longleftrightarrow>
     (\<exists>f1 f2 f3 f4.
        replan_phase c i ob (f\<lparr>agent := (agent f)\<lparr>subtask_status := ''In''\<rparr>\<rparr>) = (Completed, f1) \<and>
        advance_phase c f1 = (Completed, f2) \<and>
        execute_phase c i ob f2 = (Completed, f3) \<and>
        verify_phase c ob f3 = (Completed, f4) \<and>
        f' = classify_phase c f4)"
  unfolding predict_step_def and_then_Completed by blast

lemma replan_phase_not_Broke: "replan_phase c i ob f \<noteq> (Broke, f')"
  by (simp add: replan_phase_def split: prod.splits sum.splits)

lemma execute_phase_not_Broke: "execute_phase c i ob f \<noteq> (Broke, f')"
  by (simp add: execute_phase_def split: prod.splits sum.splits option.splits)

lemma verify_phase_not_Broke: "verify_phase c ob f \<noteq> (Broke, f')"
  by (simp add: verify_phase_def Let_def split: prod.splits sum.splits option.splits)

lemma replan_phase_Completed:
  assumes "replan_phase c i ob f = (Completed, f1)"
  shows "completed_tasks (agent f1) = completed_tasks (agent f) \<and>
         current_subtask (agent f1) = current_subtask (agent f) \<and>
         needs_next_subtask (agent f1) = needs_next_subtask (agent f) \<and>
         failure_subtask (agent f1) = failure_subtask (agent f) \<and>
         should_send_action (agent f1) = should_send_action (agent f) \<and>
         subtask_status (agent f1) = subtask_status (agent f) \<and>
         actions f1 = actions f \<and>
         executor_info f1 = executor_info f \<and>
         (events f1 = events f \<or> events f1 = events f @ [Planned (subtasks (agent f1))])"
proof (cases "requires_replan (agent f)")
  case False
  with assms have "f1 = f" by (simp add: replan_phase_def)
  then show ?thesis by simp
next
  case True
  obtain r w where p: "planner_get_action_queue c i ob (failure_subtask (agent f))
      (completed_tasks (agent f)) (subtasks (agent f)) (world f) = (r, w)"
    by (cases "planner_get_action_queue c i ob (failure_subtask (agent f))
      (completed_tasks (agent f)) (subtasks (agent f)) (world f)") 
  show ?thesis
  proof (cases r)
    case (Inl e)
    with assms True p show ?thesis by (simp add: replan_phase_def)
  next
    case (Inr pq)
    obtain pinfo queue where "pq = (pinfo, queue)" by (cases pq)
    with assms True p Inr show ?thesis by (auto simp: replan_phase_def)
  qed
qed

lemma advance_phase_Completed:
  assumes "advance_phase c f = (Completed, f2)"
  shows "completed_tasks (agent f2) = completed_tasks (agent f) \<and>
         failure_subtask (agent f2) = failure_subtask (agent f) \<and>
         should_send_action (agent f2) = should_send_action (agent f) \<and>
         actions f2 = actions f \<and>
         events f2 = events f \<and>
         \<not> needs_next_subtask (agent f2) \<and>
         (needs_next_subtask (agent f) \<longrightarrow>
            subtasks (agent f) = the (current_subtask (agent f2)) # subtasks (agent f2) \<and>
            current_subtask (agent f2) \<noteq> None) \<and>
         (\<not> needs_next_subtask (agent f) \<longrightarrow> f2 = f)"
proof (cases "needs_next_subtask (agent f)")
  case False
  with assms have "f2 = f" by (simp add: advance_phase_def)
  with False show ?thesis by simp
next
  case True
  show ?thesis
  proof (cases "subtasks (agent f)")
    case Nil
    with assms True show ?thesis by (simp add: advance_phase_def)
  next
    case (Cons t rest)
    with assms True show ?thesis by (auto simp: advance_phase_def)
  qed
qed

lemma advance_phase_Broke:
  "advance_phase c f = (Broke, f') \<longleftrightarrow>
     needs_next_subtask (agent f) \<and> subtasks (agent f) = [] \<and> f' = task_complete c f"
  by (cases "subtasks (agent f)") (auto simp: advance_phase_def)

lemma task_complete_effect:
  "actions (task_complete c f) = [PStr ''DONE''] \<and>
   executor_info (task_complete c f) = done_info \<and>
   planner_info (task_complete c f) = planner_info f \<and>
   events (task_complete c f) = events f @ [ResetExecutor, ResetVerifier] \<and>
   world (task_complete c f) = reset_verifier c (reset_executor c (world f)) \<and>
   current_subtask (agent (task_complete c f)) = current_subtask (agent f) \<and>
   completed_tasks (agent (task_complete c f)) =
     (case current_subtask (agent f) of
        Some t \<Rightarrow> completed_tasks (agent f) @ [t] | None \<Rightarrow> completed_tasks (agent f)) \<and>
   failure_subtask (agent (task_complete c f)) = None \<and>
   requires_replan (agent (task_complete c f)) \<and>
   needs_next_subtask (agent (task_complete c f)) \<and>
   should_send_action (agent (task_complete c f)) \<and>
   step_count (agent (task_complete c f)) = 0 \<and>
   subtask_status (agent (task_complete c f)) = ''Done''"
  by (simp add: task_complete_def reset_executor_state_def Let_def)

lemma execute_phase_Completed:
  assumes "execute_phase c i ob f = (Completed, f3)"
  shows "completed_tasks (agent f3) = completed_tasks (agent f) \<and>
         current_subtask (agent f3) = current_subtask (agent f) \<and>
         current_subtask (agent f3) \<noteq> None \<and>
         failure_subtask (agent f3) = failure_subtask (agent f) \<and>
         subtasks (agent f3) = subtasks (agent f) \<and>
         needs_next_subtask (agent f3) = needs_next_subtask (agent f) \<and>
         should_send_action (agent f3) = should_send_action (agent f) \<and>
         events f3 = events f @ [Executed (actions f3)]"
proof (cases "current_subtask (agent f)")
  case None
  with assms show ?thesis by (simp add: execute_phase_def)
next
  case (Some t)
  obtain r w where p: "executor_generate_next_action c i (search_query (agent f))
                  (name t) (info t) (subtasks (agent f)) (completed_tasks (agent f))
                  ob (world f) = (r, w)"
    by (cases "executor_generate_next_action c i (search_query (agent f))
                  (name t) (info t) (subtasks (agent f)) (completed_tasks (agent f))
                  ob (world f)")
  show ?thesis
  proof (cases r)
    case (Inl e)
    with assms Some p show ?thesis by (simp add: execute_phase_def)
  next
    case (Inr ea)
    obtain einfo acts where "ea = (einfo, acts)" by (cases ea)
    with assms Some p Inr show ?thesis by (auto simp: execute_phase_def)
  qed
qed

lemma verification_failed_effect:
  "requires_replan (agent (verification_failed c f)) \<and>
   needs_next_subtask (agent (verification_failed c f)) \<and>
   failure_subtask (agent (verification_failed c f)) = current_subtask (agent f) \<and>
   step_count (agent (verification_failed c f)) = 0 \<and>
   completed_tasks (agent (verification_failed c f)) = completed_tasks (agent f) \<and>
   current_subtask (agent (verification_failed c f)) = current_subtask (agent f) \<and>
   subtasks (agent (verification_failed c f)) = subtasks (agent f) \<and>
   (subtasks (agent f) \<noteq> [] \<longrightarrow> \<not> should_send_action (agent (verification_failed c f))) \<and>
   actions (verification_failed c f) = actions f \<and>
   executor_info (verification_failed c f) = executor_info f \<and>
   events (verification_failed c f) = events f @ [ResetExecutor, ResetVerifier] \<and>
   world (verification_failed c f) = reset_verifier c (reset_executor c (world f))"
  by (simp add: verification_failed_def reset_executor_state_def Let_def)

lemma execution_failed_effect:
  "requires_replan (agent (execution_failed c f)) \<and>
   needs_next_subtask (agent (execution_failed c f)) \<and>
   failure_subtask (agent (execution_failed c f)) = current_subtask (agent f) \<and>
   step_count (agent (execution_failed c f)) = 0 \<and>
   completed_tasks (agent (execution_failed c f)) = completed_tasks (agent f) \<and>
   current_subtask (agent (execution_failed c f)) = current_subtask (agent f) \<and>
   subtasks (agent (execution_failed c f)) = subtasks (agent f) \<and>
   should_send_action (agent (execution_failed c f)) =
     (subtasks (agent f) = [] \<and> should_send_action (agent f)) \<and>
   actions (execution_failed c f) = actions f \<and>
   executor_info (execution_failed c f) = executor_info f \<and>
   events (execution_failed c f) = events f @ [ResetExecutor, ResetVerifier] \<and>
   world (execution_failed c f) = reset_verifier c (reset_executor c (world f))"
  by (simp add: execution_failed_def reset_executor_state_def Let_def)

lemma subtask_completed_effect:
  "requires_replan (agent (subtask_completed c f)) \<and>
   needs_next_subtask (agent (subtask_completed c f)) \<and>
   failure_subtask (agent (subtask_completed c f)) = None \<and>
   step_count (agent (subtask_completed c f)) = 0 \<and>
   completed_tasks (agent (subtask_completed c f)) =
     (case current_subtask (agent f) of
        Some t \<Rightarrow> completed_tasks (agent f) @ [t] | None \<Rightarrow> completed_tasks (agent f)) \<and>
   current_subtask (agent (subtask_completed c f)) = current_subtask (agent f) \<and>
   subtasks (agent (subtask_completed c f)) = subtasks (agent f) \<and>
   should_send_action (agent (subtask_completed c f)) =
     (subtasks (agent f) = [] \<and> should_send_action (agent f)) \<and>
   actions (subtask_completed c f) = actions f \<and>
   executor_info (subtask_completed c f) = executor_info f \<and>
   events (subtask_completed c f) = events f @ [ResetExecutor, ResetVerifier]"
  by (simp add: subtask_completed_def reset_executor_state_def Let_def)

lemma record_verdict_effect:
  "agent (record_verdict b r v w f) = agent f \<and>
   actions (record_verdict b r v w f) = actions f \<and>
   events (record_verdict b r v w f) = events f @ [Verified b] \<and>
   executor_info (record_verdict b r v w f) ''verification_success'' = Some (PBool b)"
  by (simp add: record_verdict_def)

lemma verify_phase_Completed:
  assumes "verify_phase c ob f = (Completed, f4)" and "current_subtask (agent f) \<noteq> None"
  shows "\<exists>b r v w. f4 = (if b then record_verdict b r v w f
                         else verification_failed c (record_verdict b r v w f))"
proof -
  from assms(2) obtain t where t: "current_subtask (agent f) = Some t" by auto
  obtain res w where p: "verifier_verify_execution c (name t @ '': '' @ info t) (executor_info f)
                  ob (world f) = (res, w)"
    by (cases "verifier_verify_execution c (name t @ '': '' @ info t) (executor_info f)
                  ob (world f)")
  show ?thesis
  proof (cases res)
    case (Inl e)
    with assms t p show ?thesis by (simp add: verify_phase_def)
  next
    case (Inr brv)
    obtain b r v where "brv = (b, r, v)" by (cases brv)
    with assms t p Inr have "f4 = (if b then record_verdict b r v w f
                         else verification_failed c (record_verdict b r v w f))"
      by (simp add: verify_phase_def Let_def split: if_splits)
    then show ?thesis by blast
  qed
qed

lemma classify_phase_frame:
  "actions (classify_phase c f) = actions f \<and>
   executor_info (classify_phase c f) = executor_info f \<and>
   subtasks (agent (classify_phase c f)) = subtasks (agent f) \<and>
   current_subtask (agent (classify_phase c f)) = current_subtask (agent f)"
  by (simp add: classify_phase_def Let_def execution_failed_effect subtask_completed_effect)

lemma classify_phase_failure:
  assumes "failure_marker (actions f)"
  shows "requires_replan (agent (classify_phase c f)) \<and>
         needs_next_subtask (agent (classify_phase c f)) \<and>
         failure_subtask (agent (classify_phase c f)) = current_subtask (agent f) \<and>
         step_count (agent (classify_phase c f)) = 0 \<and>
         completed_tasks (agent (classify_phase c f)) = completed_tasks (agent f) \<and>
         should_send_action (agent (classify_phase c f)) = (subtasks (agent f) = []) \<and>
         events (classify_phase c f) = events f @ [ResetExecutor, ResetVerifier] \<and>
         world (classify_phase c f) = reset_verifier c (reset_executor c (world f))"
  using assms by (simp add: classify_phase_def Let_def execution_failed_effect)

lemma classify_phase_completion:
  assumes "\<not> failure_marker (actions f)" and "completion_marker (actions f)"
  shows "requires_replan (agent (classify_phase c f)) \<and>
         needs_next_subtask (agent (classify_phase c f)) \<and>
         failure_subtask (agent (classify_phase c f)) = None \<and>
         completed_tasks (agent (classify_phase c f)) =
           (case current_subtask (agent f) of
              Some t \<Rightarrow> completed_tasks (agent f) @ [t] | None \<Rightarrow> completed_tasks (agent f)) \<and>
         should_send_action (agent (classify_phase c f)) = (subtasks (agent f) = []) \<and>
         events (classify_phase c f) = events f @ [ResetExecutor, ResetVerifier]"
  using assms
  by (simp add: classify_phase_def Let_def subtask_completed_effect split: option.splits)

lemma classify_phase_plain:
  assumes "\<not> failure_marker (actions f)" and "\<not> completion_marker (actions f)"
  shows "classify_phase c f =
           f\<lparr>agent := (agent f)\<lparr>should_send_action := True,
                                 turn_count := turn_count (agent f) + 1\<rparr>\<rparr>"
  using assms by (simp add: classify_phase_def Let_def)


lemma predict_step_Completed_summary:
  assumes "predict_step c i ob f = (Completed, f')"
  shows "\<exists>f4 b es.
           f' = classify_phase c f4 \<and>
           current_subtask (agent f4) \<noteq> None \<and>
           completed_tasks (agent f4) = completed_tasks (agent f) \<and>
           executor_info f4 ''verification_success'' = Some (PBool b) \<and>
           (\<not> b \<longrightarrow> requires_replan (agent f4) \<and> needs_next_subtask (agent f4) \<and>
                   failure_subtask (agent f4) = current_subtask (agent f4) \<and>
                   step_count (agent f4) = 0 \<and>
                   (subtasks (agent f4) \<noteq> [] \<longrightarrow> \<not> should_send_action (agent f4))) \<and>
           (es = [] \<or> (\<exists>q. es = [Planned q])) \<and>
           (\<forall>a. Executed a \<notin> set es) \<and>
           events f4 = events f @ es @ Executed (actions f4) # Verified b #
                         (if b then [] else [ResetExecutor, ResetVerifier])"
proof -
  let ?f0 = "f\<lparr>agent := (agent f)\<lparr>subtask_status := ''In''\<rparr>\<rparr>"
  from assms obtain f1 f2 f3 f4 where
    s1: "replan_phase c i ob ?f0 = (Completed, f1)" and
    s2: "advance_phase c f1 = (Completed, f2)" and
    s3: "execute_phase c i ob f2 = (Completed, f3)" and
    s4: "verify_phase c ob f3 = (Completed, f4)" and
    s5: "f' = classify_phase c f4"
    unfolding predict_step_Completed by blast
  note r1 = replan_phase_Completed [OF s1]
  note r2 = advance_phase_Completed [OF s2]
  note r3 = execute_phase_Completed [OF s3]
  from r3 have cs3: "current_subtask (agent f3) \<noteq> None" by blast
  from verify_phase_Completed [OF s4 cs3] obtain b r v w where
    f4: "f4 = (if b then record_verdict b r v w f3
               else verification_failed c (record_verdict b r v w f3))" by blast
  define es where "es = (if events f1 = events f then [] else [Planned (subtasks (agent f1))])"
  have e1: "events f1 = events f @ es" and noex: "\<forall>a. Executed a \<notin> set es"
    and esform: "es = [] \<or> (\<exists>q. es = [Planned q])"
    using r1 by (auto simp: es_def)
  have e3: "events f3 = events f @ es @ [Executed (actions f3)]"
    using r2 r3 e1 by simp
  have c3: "completed_tasks (agent f3) = completed_tasks (agent f)"
    using r1 r2 r3 by simp
  show ?thesis
  proof (cases b)
    case True
    with f4 have "f4 = record_verdict b r v w f3" by simp
    with True cs3 c3 e3 noex esform s5 show ?thesis
      by (intro exI [of _ f4] exI [of _ True] exI [of _ es])
         (simp add: record_verdict_effect)
  next
    case False
    with f4 have "f4 = verification_failed c (record_verdict b r v w f3)" by simp
    with False cs3 c3 e3 noex esform s5 show ?thesis
      by (intro exI [of _ f4] exI [of _ False] exI [of _ es])
         (simp add: record_verdict_effect verification_failed_effect)
  qed
qed
lemma predict_step_Broke:
  "predict_step c i ob f = (Broke, f') \<longleftrightarrow>
     (\<exists>f1. replan_phase c i ob (f\<lparr>agent := (agent f)\<lparr>subtask_status := ''In''\<rparr>\<rparr>) = (Completed, f1) \<and>
           advance_phase c f1 = (Broke, f'))"
  unfolding predict_step_def and_then_Broke
  by (auto simp: replan_phase_not_Broke execute_phase_not_Broke verify_phase_not_Broke)

subsection \<open>The loop\<close>

lemma last_executed_append:
  "last_executed (xs @ ys) =
     (case last_executed ys of Some a \<Rightarrow> Some a | None \<Rightarrow> last_executed xs)"
  by (induction xs) (auto split: option.splits)

lemma classify_phase_events:
  "events (classify_phase c f) = events f \<or>
   events (classify_phase c f) = events f @ [ResetExecutor, ResetVerifier]"
  by (simp add: classify_phase_def Let_def execution_failed_effect subtask_completed_effect)

lemma predict_step_Completed_last_executed:
  assumes "predict_step c i ob f = (Completed, f')"
  shows "last_executed (events f') = Some (actions f')"
proof -
  from predict_step_Completed_summary [OF assms] obtain f4 b es where
    f': "f' = classify_phase c f4" and
    ev: "events f4 = events f @ es @ Executed (actions f4) # Verified b #
                         (if b then [] else [ResetExecutor, ResetVerifier])"
    by blast
  have "last_executed (events f4) = Some (actions f4)"
    by (simp add: ev last_executed_append)
  moreover have "actions f' = actions f4" by (simp add: f' classify_phase_frame)
  ultimately show ?thesis
    using classify_phase_events [of c f4] by (auto simp: f' last_executed_append)
qed

lemma predict_step_Broke_iff:
  "predict_step c i ob f = (Broke, f') \<longleftrightarrow>
     advance_finds_empty c i ob f \<and>
     f' = task_complete c
            (snd (replan_phase c i ob (f\<lparr>agent := (agent f)\<lparr>subtask_status := ''In''\<rparr>\<rparr>)))"
proof -
  let ?r = "replan_phase c i ob (f\<lparr>agent := (agent f)\<lparr>subtask_status := ''In''\<rparr>\<rparr>)"
  show ?thesis
  proof (cases ?r)
    case (Pair t f1)
    then show ?thesis
      by (cases t) (auto simp: predict_step_Broke advance_finds_empty_def advance_phase_Broke)
  qed
qed

lemma predict_step_Broke_effect:
  assumes "predict_step c i ob f = (Broke, f')"
  shows "actions f' = [PStr ''DONE''] \<and>
         (events f' = events f @ [ResetExecutor, ResetVerifier] \<or>
          events f' = events f @ [Planned [], ResetExecutor, ResetVerifier]) \<and>
         current_subtask (agent f') = current_subtask (agent f) \<and>
         completed_tasks (agent f') =
           (case current_subtask (agent f) of
              Some t \<Rightarrow> completed_tasks (agent f) @ [t] | None \<Rightarrow> completed_tasks (agent f))"
proof -
  let ?f0 = "f\<lparr>agent := (agent f)\<lparr>subtask_status := ''In''\<rparr>\<rparr>"
  from assms obtain f1 where
    s1: "replan_phase c i ob ?f0 = (Completed, f1)" and s2: "advance_phase c f1 = (Broke, f')"
    unfolding predict_step_Broke by blast
  note r1 = replan_phase_Completed [OF s1]
  from s2 have e: "subtasks (agent f1) = []" and f': "f' = task_complete c f1"
    by (simp_all add: advance_phase_Broke)
  from r1 e f' show ?thesis
    by (auto simp: task_complete_effect split: option.splits)
qed

lemma predict_loop_exit:
  assumes "predict_loop c i ob f = Some y"
  shows "(fst y = Completed \<longrightarrow>
            should_send_action (agent (snd y)) \<and>
            (snd y = f \<or> last_executed (events (snd y)) = Some (actions (snd y)))) \<and>
         (fst y = Broke \<longrightarrow>
            (\<exists>g. \<not> should_send_action (agent g) \<and> predict_step c i ob g = (Broke, snd y)))"
proof (rule predict_loop.raw_induct
    [where P = "\<lambda>c i ob f y.
         (fst y = Completed \<longrightarrow>
            should_send_action (agent (snd y)) \<and>
            (snd y = f \<or> last_executed (events (snd y)) = Some (actions (snd y)))) \<and>
         (fst y = Broke \<longrightarrow>
            (\<exists>g. \<not> should_send_action (agent g) \<and> predict_step c i ob g = (Broke, snd y)))",
     OF _ assms])
  fix loop :: "('a, 'b) collaborators \<Rightarrow> string \<Rightarrow> 'b \<Rightarrow> 'a frame \<Rightarrow> (outcome \<times> 'a frame) option"
    and c i ob f y
  assume IH: "\<And>c i ob f y. loop c i ob f = Some y \<Longrightarrow>
         (fst y = Completed \<longrightarrow>
            should_send_action (agent (snd y)) \<and>
            (snd y = f \<or> last_executed (events (snd y)) = Some (actions (snd y)))) \<and>
         (fst y = Broke \<longrightarrow>
            (\<exists>g. \<not> should_send_action (agent g) \<and> predict_step c i ob g = (Broke, snd y)))"
    and body: "(if should_send_action (agent f) then Some (Completed, f)
        else case predict_step c i ob f of
             (Raised e, f') \<Rightarrow> Some (Raised e, f')
             | (Broke, f') \<Rightarrow> Some (Broke, f')
             | (Completed, f') \<Rightarrow> loop c i ob f') = Some y"
  show "(fst y = Completed \<longrightarrow>
            should_send_action (agent (snd y)) \<and>
            (snd y = f \<or> last_executed (events (snd y)) = Some (actions (snd y)))) \<and>
         (fst y = Broke \<longrightarrow>
            (\<exists>g. \<not> should_send_action (agent g) \<and> predict_step c i ob g = (Broke, snd y)))"
  proof (cases "should_send_action (agent f)")
    case True
    with body show ?thesis by auto
  next
    case False
    obtain t f' where st: "predict_step c i ob f = (t, f')" by (cases "predict_step c i ob f")
    show ?thesis
    proof (cases t)
      case (Raised e)
      with body False st show ?thesis by auto
    next
      case Broke
      with body False st show ?thesis by auto
    next
      case Completed
      with body False st have l: "loop c i ob f' = Some y" by simp
      from st Completed have le: "last_executed (events f') = Some (actions f')"
        by (simp add: predict_step_Completed_last_executed)
      from IH [OF l] le show ?thesis by auto
    qed
  qed
qed

lemma predict_loop_stop:
  "should_send_action (agent f) \<Longrightarrow> predict_loop c i ob f = Some (Completed, f)"
  by (subst predict_loop.simps) simp

lemma predict_loop_continue:
  "\<not> should_send_action (agent f) \<Longrightarrow> predict_step c i ob f = (Completed, f') \<Longrightarrow>
   predict_loop c i ob f = predict_loop c i ob f'"
  by (subst predict_loop.simps) simp

lemma predict_loop_break:
  "\<not> should_send_action (agent f) \<Longrightarrow> predict_step c i ob f = (Broke, f') \<Longrightarrow>
   predict_loop c i ob f = Some (Broke, f')"
  by (subst predict_loop.simps) simp

lemma predict_loop_raise:
  "\<not> should_send_action (agent f) \<Longrightarrow> predict_step c i ob f = (Raised e, f') \<Longrightarrow>
   predict_loop c i ob f = Some (Raised e, f')"
  by (subst predict_loop.simps) simp

lemma finish_fields:
  "(\<And>e. t \<noteq> Raised e) \<Longrightarrow>
   returned (finish (t, f)) =
     Inr (merged_info (f\<lparr>agent := (agent f)\<lparr>should_send_action := False\<rparr>\<rparr>), actions f) \<and>
   loop_exit (finish (t, f)) = t \<and>
   trace (finish (t, f)) = events f \<and>
   agent_after (finish (t, f)) = (agent f)\<lparr>should_send_action := False\<rparr> \<and>
   world_after (finish (t, f)) = world f"
  by (cases t) (auto simp: finish_def Let_def)


subsection \<open>The terminal action\<close>

subsection \<open>Scripted runs\<close>

lemmas step_defs = predict_step_def and_then_def replan_phase_def advance_phase_def
  execute_phase_def verify_phase_def classify_phase_def record_verdict_def
  verification_failed_def execution_failed_def subtask_completed_def task_complete_def
  reset_executor_state_def initial_frame_def initial_agent_state_def scripted_def Let_def

lemma click_action_markers:
  "\<not> failure_marker [click_action]" "\<not> completion_marker [click_action]"
  by code_simp+


lemma fail_action_markers:
  "failure_marker [PStr ''FAIL: Could not parse plan output'']"
  by code_simp




lemma empty_plan_step:
  "advance_finds_empty scripted ''open settings'' ()
     (initial_frame initial_agent_state empty_plan_script)"
  "\<not> should_send_action (agent (initial_frame initial_agent_state empty_plan_script))"
  by (simp_all add: advance_finds_empty_def step_defs empty_plan_script_def)


subsection \<open>A failed verdict\<close>

lemma rejected_click_step:
  "fst (predict_step scripted ''open settings'' ()
     (initial_frame initial_agent_state rejected_click_script)) = Completed"
  "should_send_action (agent (snd (predict_step scripted ''open settings'' ()
     (initial_frame initial_agent_state rejected_click_script))))"
  "subtasks (agent (snd (predict_step scripted ''open settings'' ()
     (initial_frame initial_agent_state rejected_click_script)))) = [subtask_B]"
  "actions (snd (predict_step scripted ''open settings'' ()
     (initial_frame initial_agent_state rejected_click_script))) = [click_action]"
  "events (snd (predict_step scripted ''open settings'' ()
     (initial_frame initial_agent_state rejected_click_script)))
     = [Planned [subtask_A, subtask_B], Executed [click_action], Verified False,
        ResetExecutor, ResetVerifier]"
  by (simp_all add: step_defs rejected_click_script_def click_action_markers)

lemma rejected_click_run:
  "predict scripted ''open settings'' () initial_agent_state rejected_click_script =
     Some (finish (Completed, snd (predict_step scripted ''open settings'' ()
       (initial_frame initial_agent_state rejected_click_script))))"
proof -
  let ?f0 = "initial_frame initial_agent_state rejected_click_script :: script frame"
  let ?f1 = "snd (predict_step scripted ''open settings'' () ?f0)"
  have st: "predict_step scripted ''open settings'' () ?f0 = (Completed, ?f1)"
    using rejected_click_step(1) by (metis prod.collapse)
  have "\<not> should_send_action (agent ?f0)"
    by (simp add: initial_frame_def initial_agent_state_def)
  then have "predict_loop scripted ''open settings'' () ?f0
               = predict_loop scripted ''open settings'' () ?f1"
    using st by (rule predict_loop_continue)
  also have "\<dots> = Some (Completed, ?f1)"
    using rejected_click_step(2) by (rule predict_loop_stop)
  finally show ?thesis by (simp add: predict_def)
qed

text \<open>
  Claim C2: the code at the claim's input. The planner queues A and B, the executor
  answers a click on A, and the verifier rejects it. The queue still holds B, yet the
  loop ends after this one pass and the click is returned to the caller: the assignment
  \<open>self.should_send_action = True\<close> that follows the verification undoes the
  suppression.
\<close>

theorem failed_verdict_still_sends:
  "map_option returned_actions
     (predict scripted ''open settings'' () initial_agent_state rejected_click_script)
     = Some (Some [click_action]) \<and>
   map_option remaining_after
     (predict scripted ''open settings'' () initial_agent_state rejected_click_script)
     = Some [subtask_B] \<and>
   map_option loop_exit
     (predict scripted ''open settings'' () initial_agent_state rejected_click_script)
     = Some Completed \<and>
   map_option trace
     (predict scripted ''open settings'' () initial_agent_state rejected_click_script)
     = Some [Planned [subtask_A, subtask_B], Executed [click_action], Verified False,
             ResetExecutor, ResetVerifier]"
  by (simp add: rejected_click_run returned_actions_def remaining_after_def finish_fields
        rejected_click_step)

subsection \<open>A failure marker in the action\<close>

lemma and_then_assoc:
  "and_then (and_then r k) k' = and_then r (\<lambda>x. and_then (k x) k')"
  by (cases r; cases "fst r") (auto simp: and_then_def)

lemma predict_step_classifies:
  "predict_step c i ob f =
     and_then (before_classification c i ob f) (\<lambda>f4. (Completed, classify_phase c f4))"
  by (simp add: predict_step_def before_classification_def and_then_assoc)

lemma predict_step_Completed_classified:
  assumes "predict_step c i ob f = (Completed, f')"
  shows "before_classification c i ob f = (Completed, snd (before_classification c i ob f)) \<and>
         f' = classify_phase c (snd (before_classification c i ob f))"
proof -
  from assms obtain f4 where "before_classification c i ob f = (Completed, f4)"
    and "f' = classify_phase c f4"
    unfolding predict_step_classifies and_then_Completed by blast
  then show ?thesis by simp
qed

text \<open>
  Claim C3. In a completed pass whose action (the executor's reply, \<open>actions f'\<close>)
  carries the failure marker while subtasks remain queued, the orchestrator has set
  \<open>requires_replan\<close> and \<open>needs_next_subtask\<close>, pointed \<open>failure_subtask\<close> at the
  current subtask, reset the executor state and left \<open>should_send_action\<close> false: the
  loop goes on from the new state without returning. The reset is stated on the
  collaborators themselves: the world after the pass is the world in which the action
  was examined (the one that Replan, Advance, Execute and Verify left), with the
  executor's reset and then the verifier's reset applied to it; the two resets are the
  last events and the step counter is zero.
\<close>

theorem failure_marker_suppresses_action:
  assumes "predict_step c i ob f = (Completed, f')"
    and "failure_marker (actions f')"
    and "subtasks (agent f') \<noteq> []"
  shows "requires_replan (agent f') \<and> needs_next_subtask (agent f') \<and>
         failure_subtask (agent f') = current_subtask (agent f') \<and>
         current_subtask (agent f') \<noteq> None \<and>
         step_count (agent f') = 0 \<and>
         last_executed (events f') = Some (actions f') \<and>
         (\<exists>es. events f' = events f @ es @ [ResetExecutor, ResetVerifier]) \<and>
         \<not> should_send_action (agent f') \<and>
         (\<not> should_send_action (agent f) \<longrightarrow>
            predict_loop c i ob f = predict_loop c i ob f') \<and>
         fst (before_classification c i ob f) = Completed \<and>
         world f' =
           reset_verifier c (reset_executor c (world (snd (before_classification c i ob f))))"
proof -
  note bc = predict_step_Completed_classified [OF assms(1)]
  from bc have bc1: "fst (before_classification c i ob f) = Completed"
    by (metis fst_conv)
  from bc have bc2: "f' = classify_phase c (snd (before_classification c i ob f))"
    by blast
  from assms(2) have "failure_marker (actions (snd (before_classification c i ob f)))"
    by (subst (asm) bc2) (simp add: classify_phase_frame)
  from classify_phase_failure [OF this, of c] bc2
  have wd: "world f' =
      reset_verifier c (reset_executor c (world (snd (before_classification c i ob f))))"
    by simp
  from predict_step_Completed_summary [OF assms(1)] obtain f4 b es where
    f': "f' = classify_phase c f4" and
    cs: "current_subtask (agent f4) \<noteq> None" and
    ev: "events f4 = events f @ es @ Executed (actions f4) # Verified b #
                         (if b then [] else [ResetExecutor, ResetVerifier])"
    by blast
  from assms(2) have fm: "failure_marker (actions f4)"
    by (simp add: f' classify_phase_frame)
  from assms(3) have q: "subtasks (agent f4) \<noteq> []"
    by (simp add: f' classify_phase_frame)
  note cf = classify_phase_failure [OF fm, of c]
  have "events f' = events f @ (es @ Executed (actions f4) # Verified b #
          (if b then [] else [ResetExecutor, ResetVerifier])) @ [ResetExecutor, ResetVerifier]"
    using cf ev by (simp add: f')
  then have evs: "\<exists>es. events f' = events f @ es @ [ResetExecutor, ResetVerifier]" by blast
  have le: "last_executed (events f') = Some (actions f')"
    using assms(1) by (rule predict_step_Completed_last_executed)
  have ns: "\<not> should_send_action (agent f')"
    using cf q by (simp add: f')
  have loop: "\<not> should_send_action (agent f) \<longrightarrow>
            predict_loop c i ob f = predict_loop c i ob f'"
    using assms(1) by (simp add: predict_loop_continue)
  from cf cs evs le ns loop
  have "requires_replan (agent f') \<and> needs_next_subtask (agent f') \<and>
         failure_subtask (agent f') = current_subtask (agent f') \<and>
         current_subtask (agent f') \<noteq> None \<and>
         step_count (agent f') = 0 \<and>
         last_executed (events f') = Some (actions f') \<and>
         (\<exists>es. events f' = events f @ es @ [ResetExecutor, ResetVerifier]) \<and>
         \<not> should_send_action (agent f') \<and>
         (\<not> should_send_action (agent f) \<longrightarrow>
            predict_loop c i ob f = predict_loop c i ob f')"
    by (simp add: f' classify_phase_frame)
  with bc1 wd show ?thesis by blast
qed

lemma failed_action_worlds:
  "world (snd (before_classification scripted ''open settings'' ()
             (start_frame failed_action_script)))
     = \<lparr>plans = [[subtask_B]], replies = [[click_action]], verdicts = [True], resets = 0\<rparr>"
  "reset_verifier scripted (reset_executor scripted
     \<lparr>plans = [[subtask_B]], replies = [[click_action]], verdicts = [True], resets = 0\<rparr>)
     = \<lparr>plans = [[subtask_B]], replies = [[click_action]], verdicts = [True], resets = 1\<rparr>"
  by (simp_all add: before_classification_def start_frame_def step_defs failed_action_script_def)

lemma failed_action_step:
  "fst (predict_step scripted ''open settings'' () (start_frame failed_action_script)) = Completed"
  "actions (first_pass failed_action_script) = [PStr ''FAIL: Could not parse plan output'']"
  "subtasks (agent (first_pass failed_action_script)) = [subtask_B]"
  "current_subtask (agent (first_pass failed_action_script)) = Some subtask_A"
  "\<not> should_send_action (agent (start_frame failed_action_script))"
  by (simp_all add: first_pass_def start_frame_def step_defs failed_action_script_def
        fail_action_markers)

theorem failure_marker_suppresses_action_witness:
  "predict_step scripted ''open settings'' () (start_frame failed_action_script)
     = (Completed, first_pass failed_action_script) \<and>
   failure_marker (actions (first_pass failed_action_script)) \<and>
   subtasks (agent (first_pass failed_action_script)) \<noteq> [] \<and>
   requires_replan (agent (first_pass failed_action_script)) \<and>
   needs_next_subtask (agent (first_pass failed_action_script)) \<and>
   failure_subtask (agent (first_pass failed_action_script)) = Some subtask_A \<and>
   step_count (agent (first_pass failed_action_script)) = 0 \<and>
   \<not> should_send_action (agent (first_pass failed_action_script)) \<and>
   predict_loop scripted ''open settings'' () (start_frame failed_action_script)
     = predict_loop scripted ''open settings'' () (first_pass failed_action_script) \<and>
   world (first_pass failed_action_script)
     = \<lparr>plans = [[subtask_B]], replies = [[click_action]], verdicts = [True], resets = 1\<rparr>"
proof -
  have st: "predict_step scripted ''open settings'' () (start_frame failed_action_script)
              = (Completed, first_pass failed_action_script)"
    using failed_action_step(1) unfolding first_pass_def by (metis prod.collapse)
  have fm: "failure_marker (actions (first_pass failed_action_script))"
    by (simp add: failed_action_step fail_action_markers)
  have q: "subtasks (agent (first_pass failed_action_script)) \<noteq> []"
    by (simp add: failed_action_step)
  from failure_marker_suppresses_action [OF st fm q] st fm q failed_action_step(4,5)
  show ?thesis by (simp add: failed_action_worlds)
qed

subsection \<open>Consecutive failures\<close>

lemma failure_transition_effect:
  assumes "predict_step c i ob f = (Completed, f')" and "failure_transition f'"
  shows "completed_tasks (agent f') = completed_tasks (agent f) \<and>
         failure_subtask (agent f') = current_subtask (agent f') \<and>
         current_subtask (agent f') \<noteq> None"
proof -
  from predict_step_Completed_summary [OF assms(1)] obtain f4 b es where
    f': "f' = classify_phase c f4" and
    cs: "current_subtask (agent f4) \<noteq> None" and
    ct: "completed_tasks (agent f4) = completed_tasks (agent f)" and
    vs: "executor_info f4 ''verification_success'' = Some (PBool b)" and
    vf: "\<not> b \<longrightarrow> failure_subtask (agent f4) = current_subtask (agent f4)"
    by blast
  show ?thesis
  proof (cases "failure_marker (actions f4)")
    case True
    from classify_phase_failure [OF True, of c] cs ct show ?thesis
      by (simp add: f' classify_phase_frame)
  next
    case False
    with assms(2) have nb: "\<not> b" and nc: "\<not> completion_marker (actions f4)"
      using vs by (simp_all add: failure_transition_def f' classify_phase_frame)
    from classify_phase_plain [OF False nc, of c] vf nb cs ct show ?thesis
      by (simp add: f')
  qed
qed

text \<open>
  Claim C7. Two failure transitions in consecutive passes of the loop body (the second
  pass starts from the object the first one left, in the same call or, when the first
  action was sent, in the next call, where \<open>should_send_action\<close> has been cleared) on
  the same current subtask: the completed list after the second failure is the one
  from before the first, and the failure pointer is that subtask.
\<close>

theorem consecutive_failures_keep_pointer:
  assumes "predict_step c i ob f0 = (Completed, f1)"
    and "failure_transition f1"
    and "agent g = (agent f1)\<lparr>should_send_action := False\<rparr>"
    and "predict_step c i' ob' g = (Completed, f2)"
    and "failure_transition f2"
    and "current_subtask (agent f2) = current_subtask (agent f1)"
  shows "length (completed_tasks (agent f2)) = length (completed_tasks (agent f0)) \<and>
         completed_tasks (agent f2) = completed_tasks (agent f0) \<and>
         current_subtask (agent f1) \<noteq> None \<and>
         failure_subtask (agent f1) = current_subtask (agent f1) \<and>
         failure_subtask (agent f2) = current_subtask (agent f1)"
proof -
  note e1 = failure_transition_effect [OF assms(1,2)]
  note e2 = failure_transition_effect [OF assms(4,5)]
  from assms(3) have "completed_tasks (agent g) = completed_tasks (agent f1)" by simp
  with e1 e2 assms(6) show ?thesis by simp
qed

lemma rejected_click_passes:
  "fst (predict_step scripted ''open settings'' () (start_frame rejected_click_script))
     = Completed"
  "fst (predict_step scripted ''open settings'' () (second_start rejected_click_script))
     = Completed"
  "failure_transition (first_pass rejected_click_script)"
  "failure_transition (second_pass rejected_click_script)"
  "current_subtask (agent (first_pass rejected_click_script)) = Some subtask_A"
  "current_subtask (agent (second_pass rejected_click_script)) = Some subtask_A"
  "completed_tasks (agent (start_frame rejected_click_script)) = []"
  by (simp_all add: second_pass_def second_start_def first_pass_def start_frame_def step_defs
        rejected_click_script_def click_action_markers failure_transition_def)

theorem consecutive_failures_keep_pointer_witness:
  "predict_step scripted ''open settings'' () (start_frame rejected_click_script)
     = (Completed, first_pass rejected_click_script) \<and>
   failure_transition (first_pass rejected_click_script) \<and>
   agent (second_start rejected_click_script)
     = (agent (first_pass rejected_click_script))\<lparr>should_send_action := False\<rparr> \<and>
   predict_step scripted ''open settings'' () (second_start rejected_click_script)
     = (Completed, second_pass rejected_click_script) \<and>
   failure_transition (second_pass rejected_click_script) \<and>
   current_subtask (agent (second_pass rejected_click_script)) = Some subtask_A \<and>
   current_subtask (agent (first_pass rejected_click_script)) = Some subtask_A \<and>
   length (completed_tasks (agent (second_pass rejected_click_script))) = 0 \<and>
   failure_subtask (agent (second_pass rejected_click_script)) = Some subtask_A"
proof -
  have s1: "predict_step scripted ''open settings'' () (start_frame rejected_click_script)
              = (Completed, first_pass rejected_click_script)"
    using rejected_click_passes(1) unfolding first_pass_def by (metis prod.collapse)
  have s2: "predict_step scripted ''open settings'' () (second_start rejected_click_script)
              = (Completed, second_pass rejected_click_script)"
    using rejected_click_passes(2) unfolding second_pass_def by (metis prod.collapse)
  have g: "agent (second_start rejected_click_script)
     = (agent (first_pass rejected_click_script))\<lparr>should_send_action := False\<rparr>"
    by (simp add: second_start_def initial_frame_def)
  have same: "current_subtask (agent (second_pass rejected_click_script))
                = current_subtask (agent (first_pass rejected_click_script))"
    by (simp add: rejected_click_passes)
  from consecutive_failures_keep_pointer
         [OF s1 rejected_click_passes(3) g s2 rejected_click_passes(4) same]
       s1 s2 g rejected_click_passes
  show ?thesis by simp
qed

subsection \<open>The terminal action before any subtask was taken\<close>

lemma merged_info_subtask:
  "merged_info f ''subtask'' =
     Some (case current_subtask (agent f) of Some t \<Rightarrow> PStr (name t) | None \<Rightarrow> PStr ''None'')"
  by (simp add: merged_info_def)

lemma predict_loop_current_subtask:
  assumes "predict_loop c i ob f = Some y"
  shows "fst y = Broke \<longrightarrow>
           (current_subtask (agent f) \<noteq> None \<longrightarrow> current_subtask (agent (snd y)) \<noteq> None) \<and>
           (current_subtask (agent (snd y)) = None \<longrightarrow>
              completed_tasks (agent (snd y)) = completed_tasks (agent f))"
    (is "?P f y")
proof (rule predict_loop.raw_induct [where P = "\<lambda>c i ob. ?P", OF _ assms])
  fix loop :: "('a, 'b) collaborators \<Rightarrow> string \<Rightarrow> 'b \<Rightarrow> 'a frame \<Rightarrow> (outcome \<times> 'a frame) option"
    and c i ob f y
  assume IH: "\<And>c i ob f y. loop c i ob f = Some y \<Longrightarrow> ?P f y"
    and body: "(if should_send_action (agent f) then Some (Completed, f)
        else case predict_step c i ob f of
             (Raised e, f') \<Rightarrow> Some (Raised e, f')
             | (Broke, f') \<Rightarrow> Some (Broke, f')
             | (Completed, f') \<Rightarrow> loop c i ob f') = Some y"
  show "?P f y"
  proof (cases "should_send_action (agent f)")
    case True
    with body show ?thesis by auto
  next
    case False
    obtain t f' where st: "predict_step c i ob f = (t, f')" by (cases "predict_step c i ob f")
    show ?thesis
    proof (cases t)
      case (Raised e)
      with body False st have y: "y = (Raised e, f')" by simp
      then show ?thesis by simp
    next
      case Broke
      with body False st have y: "y = (Broke, f')" by simp
      from st Broke have "predict_step c i ob f = (Broke, f')" by simp
      from predict_step_Broke_effect [OF this] y show ?thesis by auto
    next
      case Completed
      with body False st have l: "loop c i ob f' = Some y" by simp
      from st Completed have "predict_step c i ob f = (Completed, f')" by simp
      from predict_step_Completed_summary [OF this]
      have "current_subtask (agent f') \<noteq> None"
        by (auto simp: classify_phase_frame)
      with IH [OF l] show ?thesis by auto
    qed
  qed
qed

text \<open>
  Claim C10. When a \<open>predict\<close> call finds the queue empty at its Advance step while
  there is no current subtask, it returns the actions \<open>["DONE"]\<close> with the info entry
  \<open>subtask = "None"\<close> and leaves the completed list as it was. First for the pass in
  which the call starts (the planner returns an empty plan on the very first call), then
  for every call that ends by the \<open>break\<close> with no current subtask.
\<close>

theorem done_without_current_subtask:
  "(\<not> should_send_action s \<longrightarrow> current_subtask s = None \<longrightarrow>
      advance_finds_empty c i ob (initial_frame s w) \<longrightarrow>
      (\<exists>r di. predict c i ob s w = Some r \<and> loop_exit r = Broke \<and>
              returned r = Inr (di, [PStr ''DONE'']) \<and>
              di ''subtask'' = Some (PStr ''None'') \<and>
              completed_tasks (agent_after r) = completed_tasks s)) \<and>
   (predict c i ob s w = Some r \<longrightarrow> loop_exit r = Broke \<longrightarrow>
      current_subtask (agent_after r) = None \<longrightarrow>
      (\<exists>di. returned r = Inr (di, [PStr ''DONE'']) \<and>
            di ''subtask'' = Some (PStr ''None'') \<and>
            completed_tasks (agent_after r) = completed_tasks s))"
proof (intro conjI impI)
  assume ns: "\<not> should_send_action s" and cn: "current_subtask s = None"
    and a: "advance_finds_empty c i ob (initial_frame s w)"
  let ?f0 = "initial_frame s w"
  define g where "g = task_complete c
             (snd (replan_phase c i ob (?f0\<lparr>agent := (agent ?f0)\<lparr>subtask_status := ''In''\<rparr>\<rparr>)))"
  from a have st: "predict_step c i ob ?f0 = (Broke, g)"
    by (simp add: predict_step_Broke_iff g_def)
  from ns have "\<not> should_send_action (agent ?f0)" by (simp add: initial_frame_def)
  then have "predict_loop c i ob ?f0 = Some (Broke, g)"
    using st by (rule predict_loop_break)
  then have p: "predict c i ob s w = Some (finish (Broke, g))"
    by (simp add: predict_def)
  from predict_step_Broke_effect [OF st] cn
  have g: "actions g = [PStr ''DONE'']" "current_subtask (agent g) = None"
    "completed_tasks (agent g) = completed_tasks s"
    by (simp_all add: initial_frame_def)
  let ?r = "finish (Broke, g)"
  have "loop_exit ?r = Broke"
    and "returned ?r = Inr (merged_info (g\<lparr>agent := (agent g)\<lparr>should_send_action := False\<rparr>\<rparr>),
                           [PStr ''DONE''])"
    and "merged_info (g\<lparr>agent := (agent g)\<lparr>should_send_action := False\<rparr>\<rparr>) ''subtask''
           = Some (PStr ''None'')"
    and "completed_tasks (agent_after ?r) = completed_tasks s"
    using g by (simp_all add: finish_fields merged_info_subtask)
  with p show "\<exists>r di. predict c i ob s w = Some r \<and> loop_exit r = Broke \<and>
              returned r = Inr (di, [PStr ''DONE'']) \<and>
              di ''subtask'' = Some (PStr ''None'') \<and>
              completed_tasks (agent_after r) = completed_tasks s"
    by blast
next
  assume p: "predict c i ob s w = Some r" and b: "loop_exit r = Broke"
    and cn: "current_subtask (agent_after r) = None"
  from p obtain y where l: "predict_loop c i ob (initial_frame s w) = Some y"
    and r: "r = finish y"
    by (auto simp: predict_def)
  obtain t f2 where y: "y = (t, f2)" by (cases y)
  have t: "t = Broke"
    using b r y by (cases t) (simp_all add: finish_def Let_def)
  have ff: "returned r = Inr (merged_info (f2\<lparr>agent := (agent f2)\<lparr>should_send_action := False\<rparr>\<rparr>),
                              actions f2)"
    "agent_after r = (agent f2)\<lparr>should_send_action := False\<rparr>"
    using r y t by (simp_all add: finish_fields)
  from cn ff have c2: "current_subtask (agent f2) = None" by simp
  from predict_loop_exit [OF l] y t obtain g where "predict_step c i ob g = (Broke, f2)"
    by auto
  from predict_step_Broke_effect [OF this] have a2: "actions f2 = [PStr ''DONE'']" by simp
  from predict_loop_current_subtask [OF l] y t c2
  have "completed_tasks (agent f2) = completed_tasks s"
    by (simp add: initial_frame_def)
  with ff a2 c2 show "\<exists>di. returned r = Inr (di, [PStr ''DONE'']) \<and>
            di ''subtask'' = Some (PStr ''None'') \<and>
            completed_tasks (agent_after r) = completed_tasks s"
    by (simp add: merged_info_subtask)
qed

theorem done_without_current_subtask_witness:
  "\<not> should_send_action initial_agent_state \<and>
   current_subtask initial_agent_state = None \<and>
   advance_finds_empty scripted ''open settings'' ()
     (initial_frame initial_agent_state empty_plan_script) \<and>
   (\<exists>r di. predict scripted ''open settings'' () initial_agent_state empty_plan_script = Some r \<and>
           loop_exit r = Broke \<and>
           returned r = Inr (di, [PStr ''DONE'']) \<and>
           di ''subtask'' = Some (PStr ''None'') \<and>
           completed_tasks (agent_after r) = [])"
proof -
  have h: "\<not> should_send_action initial_agent_state"
    "current_subtask initial_agent_state = None"
    "completed_tasks initial_agent_state = []"
    by (simp_all add: initial_agent_state_def)
  from done_without_current_subtask
         [where s = initial_agent_state and c = scripted and i = "''open settings''"
            and ob = "()" and w = empty_plan_script]
       h empty_plan_step(1)
  have "\<exists>r di. predict scripted ''open settings'' () initial_agent_state empty_plan_script
                  = Some r \<and>
           loop_exit r = Broke \<and>
           returned r = Inr (di, [PStr ''DONE'']) \<and>
           di ''subtask'' = Some (PStr ''None'') \<and>
           completed_tasks (agent_after r) = completed_tasks initial_agent_state"
    by blast
  with h empty_plan_step(1) show ?thesis by simp
qed

subsection \<open>The memory journals\<close>

lemma update_narrative_memory_keeps:
  assumes "narrative_journal fs k = Some v"
  shows "narrative_journal (update_narrative_memory summarize self trajectory fs) k = Some v"
proof (cases "summarize trajectory")
  case (Inl e)
  with assms show ?thesis
    by (auto simp: update_narrative_memory_def narrative_journal_def load_journal_def Let_def
             split: option.splits)
next
  case (Inr a)
  with assms show ?thesis
    by (auto simp: update_narrative_memory_def narrative_journal_def load_journal_def Let_def
             split: option.splits)
qed

lemma update_narrative_memory_first:
  assumes "narrative_journal fs (search_query self) = None"
    and "summarize trajectory = Inr a"
  shows "narrative_journal (update_narrative_memory summarize self trajectory fs)
           (search_query self) = Some a"
  using assms
  by (simp add: update_narrative_memory_def narrative_journal_def load_journal_def Let_def)

lemma store_episode_keeps:
  assumes "episodic_journal fs k = Some v"
  shows "episodic_journal (snd (store_episode summarize t fs)) k = Some v"
proof (cases "summarize (t @ completed_suffix)")
  case (Inl e)
  with assms show ?thesis
    by (auto simp: store_episode_def episodic_journal_def load_journal_def Let_def
             split: option.splits)
next
  case (Inr a)
  with assms show ?thesis
    by (auto simp: store_episode_def episodic_journal_def load_journal_def Let_def
             split: option.splits)
qed

lemma store_episode_first:
  assumes "episodic_journal fs (subtask_key t) = None"
    and "summarize (t @ completed_suffix) = Inr a"
  shows "store_episode summarize t fs =
           (None, fs\<lparr>episodic_memory := Some ((episodic_journal fs)(subtask_key t \<mapsto> a))\<rparr>)"
  using assms
  by (simp add: store_episode_def episodic_journal_def subtask_key_def Let_def)

lemma update_episodic_memory_files:
  "snd (update_episodic_memory summarize self meta_data t fs) = fs \<or>
   snd (update_episodic_memory summarize self meta_data t fs) = snd (store_episode summarize t fs)"
  by (auto simp: update_episodic_memory_def split: sum.splits prod.splits option.splits)

lemma update_episodic_memory_keeps:
  assumes "episodic_journal fs k = Some v"
  shows "episodic_journal (snd (update_episodic_memory summarize self meta_data t fs)) k = Some v"
  using update_episodic_memory_files [of summarize self meta_data t fs] assms
  by (auto simp: store_episode_keeps)

lemma update_episodic_memory_first:
  assumes "closes_subtask meta_data" and "t \<noteq> []"
    and "episodic_journal fs (subtask_key t) = None"
    and "summarize (t @ completed_suffix) = Inr a"
  shows "episodic_journal (snd (update_episodic_memory summarize self meta_data t fs))
           (subtask_key t) = Some a"
proof -
  from assms(1) obtain st si ss where
    m: "meta_data ''subtask'' = Some st" "meta_data ''subtask_info'' = Some si"
       "meta_data ''subtask_status'' = Some ss" "ss = PStr ''Start'' \<or> ss = PStr ''Done''"
    by (auto simp: closes_subtask_def)
  from m assms(2) store_episode_first [of fs t summarize a, OF assms(3,4)]
  have "snd (update_episodic_memory summarize self meta_data t fs) =
          fs\<lparr>episodic_memory := Some ((episodic_journal fs)(subtask_key t \<mapsto> a))\<rparr>"
    by (auto simp: update_episodic_memory_def lookup_def)
  then show ?thesis by (simp add: episodic_journal_def load_journal_def)
qed

text \<open>
  Claim C4. Both journals are first-write-wins. An entry that is in the journal is
  still there, with the same summary, after any update; and when a summary \<open>a\<close> is
  written under a key that was absent, a second write under the same key (whatever
  summary the oracle gives then) reads back \<open>a\<close>.
\<close>

theorem journals_first_write_wins:
  "(narrative_journal fs k = Some v \<longrightarrow>
      narrative_journal (update_narrative_memory summarize self trajectory fs) k = Some v) \<and>
   (episodic_journal fs k = Some v \<longrightarrow>
      episodic_journal (snd (update_episodic_memory summarize self meta_data t fs)) k = Some v) \<and>
   (narrative_journal fs (search_query self) = None \<longrightarrow> summarize trajectory = Inr a \<longrightarrow>
      narrative_journal
        (update_narrative_memory summarize' self trajectory'
           (update_narrative_memory summarize self trajectory fs))
        (search_query self) = Some a) \<and>
   (closes_subtask meta_data \<longrightarrow> t \<noteq> [] \<longrightarrow> episodic_journal fs (subtask_key t) = None \<longrightarrow>
    summarize (t @ completed_suffix) = Inr a \<longrightarrow>
      episodic_journal
        (snd (update_episodic_memory summarize' self' meta_data' t
           (snd (update_episodic_memory summarize self meta_data t fs))))
        (subtask_key t) = Some a)"
  by (simp add: update_narrative_memory_keeps update_episodic_memory_keeps
        update_narrative_memory_first update_episodic_memory_first)
lemma example_subtask_key:
  "subtask_key example_trajectory =
     ''Android Task:'' @ [CHR 0x0A] @ ''open settings'' @ [CHR 0x0A, CHR 0x0A] @
     ''Android Subtask: Open Settings app'' @ [CHR 0x0A] @
     ''Android Subtask Instruction: Open the Settings app''"
  by code_simp

theorem journals_first_write_wins_witness:
  "narrative_journal no_files (search_query example_agent) = None \<and>
   summary_A ''first trajectory'' = Inr ''summary A'' \<and>
   narrative_journal
     (update_narrative_memory summary_B example_agent ''second trajectory''
        (update_narrative_memory summary_A example_agent ''first trajectory'' no_files))
     ''open settings'' = Some ''summary A'' \<and>
   closes_subtask example_meta \<and> example_trajectory \<noteq> [] \<and>
   episodic_journal no_files (subtask_key example_trajectory) = None \<and>
   summary_A (example_trajectory @ completed_suffix) = Inr ''summary A'' \<and>
   episodic_journal
     (snd (update_episodic_memory summary_B example_agent example_meta example_trajectory
        (snd (update_episodic_memory summary_A example_agent example_meta example_trajectory
                no_files))))
     (subtask_key example_trajectory) = Some ''summary A''"
proof -
  have h1: "narrative_journal no_files (search_query example_agent) = None"
    by (simp add: narrative_journal_def load_journal_def no_files_def)
  have h2: "summary_A ''first trajectory'' = Inr ''summary A''"
    by (simp add: summary_A_def)
  have h3: "closes_subtask example_meta"
    by (simp add: closes_subtask_def example_meta_def)
  have h4: "example_trajectory \<noteq> []"
    by (simp add: example_trajectory_def)
  have h5: "episodic_journal no_files (subtask_key example_trajectory) = None"
    by (simp add: episodic_journal_def load_journal_def no_files_def)
  have h6: "summary_A (example_trajectory @ completed_suffix) = Inr ''summary A''"
    by (simp add: summary_A_def)
  have q: "search_query example_agent = ''open settings''"
    by (simp add: example_agent_def)
  from journals_first_write_wins
         [where fs = no_files and self = example_agent and summarize = summary_A
            and summarize' = summary_B and trajectory = "''first trajectory''"
            and trajectory' = "''second trajectory''" and a = "''summary A''"
            and meta_data = example_meta and meta_data' = example_meta
            and self' = example_agent and t = example_trajectory]
       h1 h2 h3 h4 h5 h6 q
  show ?thesis by simp
qed

subsection \<open>The executor's conversation window\<close>

lemma length_add_message [simp]:
  "length (messages (add_message t img r ag)) = Suc (length (messages ag))"
  by (simp add: add_message_def)

lemma length_add_system_prompt:
  "length (messages (add_system_prompt p ag)) = max 1 (length (messages ag))"
  by (cases "messages ag") (simp_all add: add_system_prompt_def Let_def)

lemma length_remove_message_at:
  "length (messages (remove_message_at i ag)) =
     (if i < length (messages ag) then length (messages ag) - 1 else length (messages ag))"
  by (auto simp: remove_message_at_def)

lemma length_create_agent [simp]: "length (messages (create_agent p)) = 1"
  by (simp add: create_agent_def length_add_system_prompt)

lemma flush_messages_frame:
  "max_trajector_length (flush_messages w) = max_trajector_length w"
  by (simp add: flush_messages_def Let_def)

lemma flush_messages_bounded:
  assumes "length (messages (generator_agent w)) \<le> 2 * max_trajector_length w + 3"
    and "length (messages (reflection_agent w)) \<le> max_trajector_length w + 2"
  shows "history_bounded (flush_messages w)"
  using assms
  by (auto simp: history_bounded_def flush_messages_def Let_def length_remove_message_at)

lemma add_reflection_turn_length:
  assumes "add_reflection_turn E subtask subtask_info obs w = Inr (r, w')"
  shows "length (messages (reflection_agent w')) \<le> max 1 (length (messages (reflection_agent w))) + 1 \<and>
         generator_agent w' = generator_agent w \<and>
         max_trajector_length w' = max_trajector_length w"
  using assms
  by (auto simp: add_reflection_turn_def Let_def length_add_system_prompt
           split: if_splits list.splits)

lemma add_generator_turns_length:
  assumes "add_generator_turns E r ch subtask subtask_info obs w = (plan, w')"
  shows "length (messages (generator_agent w')) = length (messages (generator_agent w)) + 2 \<and>
         reflection_agent w' = reflection_agent w \<and>
         max_trajector_length w' = max_trajector_length w"
  using assms by (auto simp: add_generator_turns_def Let_def)

lemma prepare_turn_length:
  assumes "prepare_turn E i subtask subtask_info ft dt obs w = (res, w')"
  shows "max_trajector_length w' = max_trajector_length w \<and>
         (case res of
            Inl e \<Rightarrow>
              length (messages (generator_agent w')) \<le> max 1 (length (messages (generator_agent w))) \<and>
              reflection_agent w' = reflection_agent w
          | Inr p \<Rightarrow>
              length (messages (generator_agent w')) \<le> max 1 (length (messages (generator_agent w))) + 2 \<and>
              length (messages (reflection_agent w')) \<le> max 1 (length (messages (reflection_agent w))) + 1)"
proof -
  define w1 where "w1 = w\<lparr>previous_obs := Some obs\<rparr>"
  define w2 where "w2 = (if worker_turn_count w1 = 0
                then w1\<lparr>generator_agent :=
                         add_system_prompt
                           (generator_system_prompt (system_prompt (generator_agent w1))
                              subtask i ft dt)
                           (generator_agent w1)\<rparr>
                else w1)"
  define ch where "ch = screen_changed E (previous_obs w) obs (worker_turn_count w)"
  have eq: "prepare_turn E i subtask subtask_info ft dt obs w =
     (case add_reflection_turn E subtask subtask_info obs w2 of
           Inl e \<Rightarrow> (Inl e, w2)
         | Inr (reflection, w3) \<Rightarrow>
             (case add_generator_turns E reflection ch subtask subtask_info obs w3 of
                (plan, w4) \<Rightarrow> (Inr (ch, reflection, plan), w4)))"
    unfolding prepare_turn_def Let_def w2_def w1_def ch_def by (rule refl)
  have g2: "length (messages (generator_agent w2)) \<le> max 1 (length (messages (generator_agent w)))"
    and r2: "reflection_agent w2 = reflection_agent w"
    and m2: "max_trajector_length w2 = max_trajector_length w"
    by (simp_all add: w2_def w1_def length_add_system_prompt)
  show ?thesis
  proof (cases "add_reflection_turn E subtask subtask_info obs w2")
    case (Inl e)
    with assms eq have "res = Inl e" "w' = w2" by simp_all
    with g2 r2 m2 show ?thesis by simp
  next
    case (Inr rw)
    obtain r w3 where rw: "rw = (r, w3)" by (cases rw)
    obtain plan w4 where gt: "add_generator_turns E r ch subtask subtask_info obs w3 = (plan, w4)"
      by (cases "add_generator_turns E r ch subtask subtask_info obs w3")
    from Inr rw have art: "add_reflection_turn E subtask subtask_info obs w2 = Inr (r, w3)"
      by simp
    from assms eq art gt have res: "res = Inr (ch, r, plan)" and w': "w' = w4"
      by simp_all
    from add_reflection_turn_length [OF art] add_generator_turns_length [OF gt] g2 r2 m2 res w'
    show ?thesis by auto
  qed
qed

lemma close_turn_bounded:
  assumes "length (messages (generator_agent w)) \<le> 2 * max_trajector_length w + 3"
    and "length (messages (reflection_agent w)) \<le> max_trajector_length w + 2"
  shows "history_bounded (close_turn E obs w)"
  using assms unfolding close_turn_def Let_def
  by (intro flush_messages_bounded) (simp_all)

lemma close_turn_frame:
  "max_trajector_length (close_turn E obs w) = max_trajector_length w"
  by (simp add: close_turn_def Let_def flush_messages_frame)

lemma generate_next_action_worker:
  "fst (snd (generate_next_action E i q subtask subtask_info ft dt obs w dev)) =
     (case prepare_turn E i subtask subtask_info ft dt obs w of
        (Inl e, w2) \<Rightarrow> w2
      | (Inr p, w4) \<Rightarrow> close_turn E obs w4)"
  by (auto simp: generate_next_action_def Let_def split: prod.splits sum.splits)

lemma generate_next_action_bounded:
  assumes "history_bounded w"
  shows "history_bounded (fst (snd (generate_next_action E i q subtask subtask_info ft dt obs w dev)))
         \<and> max_trajector_length (fst (snd (generate_next_action E i q subtask subtask_info ft dt obs w dev)))
             = max_trajector_length w"
proof -
  obtain res w' where p: "prepare_turn E i subtask subtask_info ft dt obs w = (res, w')"
    by (cases "prepare_turn E i subtask subtask_info ft dt obs w")
  note l = prepare_turn_length [OF p]
  show ?thesis
  proof (cases res)
    case (Inl e)
    with p l assms show ?thesis
      by (auto simp: generate_next_action_worker history_bounded_def)
  next
    case (Inr pl)
    with l assms have "length (messages (generator_agent w')) \<le> 2 * max_trajector_length w' + 3"
      and "length (messages (reflection_agent w')) \<le> max_trajector_length w' + 2"
      by (auto simp: history_bounded_def)
    from close_turn_bounded [OF this] Inr p l show ?thesis
      by (simp add: generate_next_action_worker close_turn_frame)
  qed
qed

lemma worker_reset_bounded:
  "history_bounded (worker_reset p q w) \<and> max_trajector_length (worker_reset p q w) = 8"
  by (simp add: worker_reset_def history_bounded_def)

lemma call_worker_bounded:
  assumes "history_bounded (fst st)"
  shows "history_bounded (fst (call_worker E a st)) \<and>
         max_trajector_length (fst (call_worker E a st)) = max_trajector_length (fst st)"
  unfolding call_worker_def using assms by (rule generate_next_action_bounded)

lemma call_sequence_bounded:
  assumes "history_bounded (fst st)"
  shows "history_bounded (fst (call_sequence E calls st)) \<and>
         max_trajector_length (fst (call_sequence E calls st)) = max_trajector_length (fst st)"
  using assms
proof (induction calls arbitrary: st)
  case Nil
  then show ?case by simp
next
  case (Cons a calls)
  from call_worker_bounded [OF Cons.prems, of E a] Cons.IH [of "call_worker E a st"]
  show ?case by simp
qed

lemma remove_two_oldest:
  assumes "3 \<le> length (messages ag)"
  shows "messages (remove_message_at (Suc 0) (remove_message_at (Suc 0) ag)) =
           hd (messages ag) # drop 3 (messages ag)"
proof -
  from assms obtain a b c rest where "messages ag = a # b # c # rest"
    by (metis Suc_le_length_iff numeral_3_eq_3)
  then show ?thesis by (simp add: remove_message_at_def)
qed

lemma remove_oldest:
  assumes "2 \<le> length (messages ag)"
  shows "messages (remove_message_at (Suc 0) ag) = hd (messages ag) # drop 2 (messages ag)"
proof -
  from assms obtain a b rest where "messages ag = a # b # rest"
    by (metis Suc_le_length_iff numeral_2_eq_2)
  then show ?thesis by (simp add: remove_message_at_def)
qed

lemma flush_messages_evicts:
  "(length (messages (generator_agent w)) > 2 * max_trajector_length w + 1 \<longrightarrow>
    length (messages (generator_agent w)) \<ge> 3 \<longrightarrow>
      messages (generator_agent (flush_messages w)) =
        hd (messages (generator_agent w)) # drop 3 (messages (generator_agent w))) \<and>
   (length (messages (reflection_agent w)) > max_trajector_length w + 1 \<longrightarrow>
      messages (reflection_agent (flush_messages w)) =
        hd (messages (reflection_agent w)) # drop 2 (messages (reflection_agent w))) \<and>
   (length (messages (generator_agent w)) \<le> 2 * max_trajector_length w + 1 \<longrightarrow>
      generator_agent (flush_messages w) = generator_agent w) \<and>
   (length (messages (reflection_agent w)) \<le> max_trajector_length w + 1 \<longrightarrow>
      reflection_agent (flush_messages w) = reflection_agent w)"
  by (auto simp: flush_messages_def Let_def remove_two_oldest remove_oldest numeral_3_eq_3)
text \<open>
  Claim C9. After \<open>reset\<close> the two conversations are within the bound
  (\<open>max_trajector_length\<close> is 8); every \<open>generate_next_action\<close> call, whatever it
  returns or raises, keeps them within it; so after any sequence of calls the generator
  agent holds at most 17 turns and the reflection agent at most 9. When a conversation
  exceeds its bound, \<open>flush_messages\<close> removes the turns right after the system turn
  (the two oldest of the generator, the oldest of the reflection agent) and keeps the
  later ones in order.
\<close>

theorem history_window_bounded:
  "history_bounded (worker_reset p q w0) \<and>
   max_trajector_length (worker_reset p q w0) = 8 \<and>
   (history_bounded w \<longrightarrow>
      history_bounded
        (fst (snd (generate_next_action E i query subtask subtask_info ft dt obs w dev))) \<and>
      max_trajector_length
        (fst (snd (generate_next_action E i query subtask subtask_info ft dt obs w dev)))
        = max_trajector_length w) \<and>
   length (messages (generator_agent
     (fst (call_sequence E calls (worker_reset p q w0, dev))))) \<le> 2 * 8 + 1 \<and>
   length (messages (reflection_agent
     (fst (call_sequence E calls (worker_reset p q w0, dev))))) \<le> 8 + 1 \<and>
   (length (messages (generator_agent w)) > 2 * max_trajector_length w + 1 \<longrightarrow>
    length (messages (generator_agent w)) \<ge> 3 \<longrightarrow>
      messages (generator_agent (flush_messages w)) =
        hd (messages (generator_agent w)) # drop 3 (messages (generator_agent w))) \<and>
   (length (messages (reflection_agent w)) > max_trajector_length w + 1 \<longrightarrow>
      messages (reflection_agent (flush_messages w)) =
        hd (messages (reflection_agent w)) # drop 2 (messages (reflection_agent w)))"
proof -
  have b0: "history_bounded (fst (worker_reset p q w0, dev))"
    by (simp add: worker_reset_bounded)
  from call_sequence_bounded [OF b0, of E calls]
  have "length (messages (generator_agent
          (fst (call_sequence E calls (worker_reset p q w0, dev))))) \<le> 2 * 8 + 1"
    and "length (messages (reflection_agent
          (fst (call_sequence E calls (worker_reset p q w0, dev))))) \<le> 8 + 1"
    by (simp_all add: history_bounded_def worker_reset_bounded)
  with worker_reset_bounded [of p q w0] flush_messages_evicts [of w]
       generate_next_action_bounded [of w E i query subtask subtask_info ft dt obs dev]
  show ?thesis by blast
qed

lemma example_run_lengths:
  "length (messages (generator_agent
     (fst (call_sequence example_worker_env (replicate 10 example_call) (example_worker, 0)))))
     = 17"
  "length (messages (reflection_agent
     (fst (call_sequence example_worker_env (replicate 10 example_call) (example_worker, 0)))))
     = 9"
  by code_simp+

theorem history_window_bounded_witness:
  "history_bounded example_worker \<and>
   history_bounded
     (fst (snd (generate_next_action example_worker_env ''open settings'' ''open settings''
        ''Open Settings app'' ''Open the Settings app'' [] [] () example_worker 0))) \<and>
   length (messages (generator_agent
     (fst (call_sequence example_worker_env (replicate 10 example_call) (example_worker, 0)))))
     = 17 \<and>
   length (messages (reflection_agent
     (fst (call_sequence example_worker_env (replicate 10 example_call) (example_worker, 0)))))
     = 9"
proof -
  note inst = history_window_bounded
      [where p = "''You are an Android agent. Subtask: SUBTASK_DESCRIPTION''"
         and q = "''Reflect.''" and ?w0.0 = blank_worker and w = example_worker
         and E = example_worker_env and i = "''open settings''" and query = "''open settings''"
         and subtask = "''Open Settings app''" and subtask_info = "''Open the Settings app''"
         and ft = "[]" and dt = "[]" and obs = "()" and dev = 0]
  from inst have b: "history_bounded example_worker"
    by (simp add: example_worker_def)
  with inst have "history_bounded
     (fst (snd (generate_next_action example_worker_env ''open settings'' ''open settings''
        ''Open Settings app'' ''Open the Settings app'' [] [] () example_worker 0)))"
    by blast
  with b example_run_lengths show ?thesis by simp
qed

subsection \<open>A plan that cannot be parsed\<close>

lemma parse_failure_markers:
  "failure_marker [PStr ''FAIL: Could not parse plan output'']"
  "failure_marker [PStr ''FAIL: Could not parse JSON action'']"
  "\<not> is_wait_action (PStr ''FAIL: Could not parse plan output'')"
  "\<not> is_wait_action (PStr ''FAIL: Could not parse JSON action'')"
  by code_simp+

lemma parse_without_action:
  assumes "search_action plan = None"
  shows "parse_reason_action_output E plan = Inr (map_option strip (search_reason plan), None)"
  using assms by (simp add: parse_reason_action_output_def Let_def)

lemma generate_next_action_after_plan:
  assumes "prepare_turn E i subtask subtask_info ft dt obs w = (Inr (changed, reflection, plan), w4)"
    and "run_plan E plan dev = (parsed, exec_code, dev1)"
    and "returned_action E parsed exec_code = Inr acts"
  shows "\<exists>di. generate_next_action E i q subtask subtask_info ft dt obs w dev =
           (Inr (di, acts), close_turn E obs w4, dev1)"
  using assms by (simp add: generate_next_action_def Let_def split: prod.splits)

text \<open>
  Claim C6, as amended. When the parser returns without a reason or without an action
  (one of them is \<open>None\<close> or empty; in particular when the reply has no \<open>Action:\<close>),
  \<open>generate_next_action\<close> returns the single action
  \<open>"FAIL: Could not parse plan output"\<close>; when both are there but no action dictionary
  can be decoded from the action, it returns \<open>"FAIL: Could not parse JSON action"\<close>. In
  both cases the call returns, the device is untouched, and the action carries the
  failure marker; it is not a wait action.
\<close>

theorem unparsed_plan_returns_failure:
  assumes "prepare_turn E i subtask subtask_info ft dt obs w = (Inr (changed, reflection, plan), w4)"
    and "parse_reason_action_output E plan = Inr (reason, action)"
  shows "(\<not> (given reason \<and> given action) \<longrightarrow>
            (\<exists>di. generate_next_action E i q subtask subtask_info ft dt obs w dev =
               (Inr (di, [PStr ''FAIL: Could not parse plan output'']),
                close_turn E obs w4, dev))) \<and>
         (given reason \<longrightarrow> given action \<longrightarrow>
          (extract_json E (the action) = Inr None \<or>
           (\<exists>v. extract_json E (the action) = Inr (Some v) \<and> \<not> truthy v)) \<longrightarrow>
            (\<exists>di. generate_next_action E i q subtask subtask_info ft dt obs w dev =
               (Inr (di, [PStr ''FAIL: Could not parse JSON action'']),
                close_turn E obs w4, dev))) \<and>
         (search_action plan = None \<longrightarrow> \<not> given action) \<and>
         failure_marker [PStr ''FAIL: Could not parse plan output''] \<and>
         failure_marker [PStr ''FAIL: Could not parse JSON action''] \<and>
         \<not> is_wait_action (PStr ''FAIL: Could not parse plan output'') \<and>
         \<not> is_wait_action (PStr ''FAIL: Could not parse JSON action'')"
proof (intro conjI impI)
  assume n: "\<not> (given reason \<and> given action)"
  with assms(2) have r: "run_plan E plan dev =
      (Some (reason, action), PStr ''FAIL: Could not parse plan output'', dev)"
    by (auto simp: run_plan_def)
  from n have "returned_action E (Some (reason, action))
                 (PStr ''FAIL: Could not parse plan output'')
               = Inr [PStr ''FAIL: Could not parse plan output'']"
    by (auto simp: returned_action_def)
  from generate_next_action_after_plan [OF assms(1) r this]
  show "\<exists>di. generate_next_action E i q subtask subtask_info ft dt obs w dev =
               (Inr (di, [PStr ''FAIL: Could not parse plan output'']),
                close_turn E obs w4, dev)" .
next
  assume g: "given reason" "given action"
    and x: "extract_json E (the action) = Inr None \<or>
           (\<exists>v. extract_json E (the action) = Inr (Some v) \<and> \<not> truthy v)"
  from g x assms(2) have r: "run_plan E plan dev =
      (Some (reason, action), PStr ''FAIL: Could not parse JSON action'', dev)"
    by (auto simp: run_plan_def)
  from g x have "returned_action E (Some (reason, action))
                 (PStr ''FAIL: Could not parse JSON action'')
               = Inr [PStr ''FAIL: Could not parse JSON action'']"
    by (auto simp: returned_action_def)
  from generate_next_action_after_plan [OF assms(1) r this]
  show "\<exists>di. generate_next_action E i q subtask subtask_info ft dt obs w dev =
               (Inr (di, [PStr ''FAIL: Could not parse JSON action'']),
                close_turn E obs w4, dev)" .
next
  assume "search_action plan = None"
  with assms(2) parse_without_action [of plan E] show "\<not> given action"
    by (simp add: given_def)
qed (rule parse_failure_markers)+

lemma example_plan:
  "fst (prepare_turn example_worker_env ''open settings'' ''Open Settings app''
          ''Open the Settings app'' [] [] () example_worker)
     = Inr (False, None, ''I will tap the Settings icon.'')"
  by (simp add: prepare_turn_def add_reflection_turn_def add_generator_turns_def Let_def
        example_worker_env_def example_worker_def worker_reset_def)

lemma example_parse:
  "parse_reason_action_output example_worker_env ''I will tap the Settings icon.''
     = Inr (None, None)"
  "search_reason ''I will tap the Settings icon.'' = None"
  "search_action ''I will tap the Settings icon.'' = None"
  by code_simp+

text \<open>
  Claim C6, counterexample. The oracle answers "I will tap the Settings icon.": neither
  a reason nor an action can be parsed, and the call returns the failure string, which
  is not a wait action.
\<close>

theorem unparsed_plan_counterexample:
  "search_reason ''I will tap the Settings icon.'' = None \<and>
   search_action ''I will tap the Settings icon.'' = None \<and>
   reply_actions (fst (generate_next_action example_worker_env ''open settings''
      ''open settings'' ''Open Settings app'' ''Open the Settings app'' [] [] ()
      example_worker 0))
     = Some [PStr ''FAIL: Could not parse plan output''] \<and>
   \<not> is_wait_action (PStr ''FAIL: Could not parse plan output'')"
proof -
  have p: "prepare_turn example_worker_env ''open settings'' ''Open Settings app''
          ''Open the Settings app'' [] [] () example_worker
     = (Inr (False, None, ''I will tap the Settings icon.''),
        snd (prepare_turn example_worker_env ''open settings'' ''Open Settings app''
          ''Open the Settings app'' [] [] () example_worker))"
    using example_plan by (metis prod.collapse)
  have r: "run_plan example_worker_env ''I will tap the Settings icon.'' (0::nat) =
      (Some (None, None), PStr ''FAIL: Could not parse plan output'', 0)"
    by (simp add: run_plan_def example_parse given_def)
  have a: "returned_action example_worker_env (Some (None, None))
             (PStr ''FAIL: Could not parse plan output'')
           = Inr [PStr ''FAIL: Could not parse plan output'']"
    by (simp add: returned_action_def given_def)
  from generate_next_action_after_plan [OF p r a, of "''open settings''"]
  have "reply_actions (fst (generate_next_action example_worker_env ''open settings''
      ''open settings'' ''Open Settings app'' ''Open the Settings app'' [] [] ()
      example_worker 0))
     = Some [PStr ''FAIL: Could not parse plan output'']"
    by (auto simp: reply_actions_def)
  with example_parse parse_failure_markers show ?thesis by simp
qed

theorem unparsed_plan_returns_failure_witness:
  "prepare_turn example_worker_env ''open settings'' ''Open Settings app''
          ''Open the Settings app'' [] [] () example_worker
     = (Inr (False, None, ''I will tap the Settings icon.''),
        snd (prepare_turn example_worker_env ''open settings'' ''Open Settings app''
          ''Open the Settings app'' [] [] () example_worker)) \<and>
   parse_reason_action_output example_worker_env ''I will tap the Settings icon.''
     = Inr (None, None) \<and>
   \<not> (given None \<and> given None) \<and>
   (\<exists>di. generate_next_action example_worker_env ''open settings'' ''open settings''
           ''Open Settings app'' ''Open the Settings app'' [] [] () example_worker 0 =
         (Inr (di, [PStr ''FAIL: Could not parse plan output'']),
          close_turn example_worker_env ()
            (snd (prepare_turn example_worker_env ''open settings'' ''Open Settings app''
               ''Open the Settings app'' [] [] () example_worker)),
          0))"
proof -
  have p: "prepare_turn example_worker_env ''open settings'' ''Open Settings app''
          ''Open the Settings app'' [] [] () example_worker
     = (Inr (False, None, ''I will tap the Settings icon.''),
        snd (prepare_turn example_worker_env ''open settings'' ''Open Settings app''
          ''Open the Settings app'' [] [] () example_worker))"
    using example_plan by (metis prod.collapse)
  have n: "\<not> (given None \<and> given None)" by (simp add: given_def)
  from unparsed_plan_returns_failure [OF p example_parse(1), of "''open settings''" 0] n
  have "\<exists>di. generate_next_action example_worker_env ''open settings'' ''open settings''
           ''Open Settings app'' ''Open the Settings app'' [] [] () example_worker 0 =
         (Inr (di, [PStr ''FAIL: Could not parse plan output'']),
          close_turn example_worker_env ()
            (snd (prepare_turn example_worker_env ''open settings'' ''Open Settings app''
               ''Open the Settings app'' [] [] () example_worker)),
          0)"
    by blast
  with p example_parse(1) n show ?thesis by blast
qed

text \<open>
  The wait itself is only reached when the parser raises, and then the call does not
  return an action: \<open>reason\<close> and \<open>action\<close> were never bound, and the \<open>if reason and action\<close>
  before the \<open>return\<close> raises.
\<close>

lemma parser_exception_raises:
  assumes "prepare_turn E i subtask subtask_info ft dt obs w = (Inr (changed, reflection, plan), w4)"
    and "parse_reason_action_output E plan = Inl e"
  shows "generate_next_action E i q subtask subtask_info ft dt obs w dev =
           (Inl (UnboundLocalError ''reason''), close_turn E obs w4, dev)"
  using assms
  by (simp add: generate_next_action_def run_plan_def returned_action_def Let_def
           split: prod.splits)

end
